theory Spec2Isabelle
  imports Main "HOL-Library.AList" "HOL-Library.Multiset"
begin

section \<open>Data model\<close>

text \<open>
  The program (\<^verbatim>\<open>src/main.py\<close>) copies tables from a primary to a secondary database
  through SQLAlchemy. Its state is the two databases, the two \<^verbatim>\<open>MetaData\<close> caches of
  \<^verbatim>\<open>Table\<close> objects, the clock read by \<^verbatim>\<open>datetime.utcnow()\<close>, the sessions that are open,
  and the log.

  A row is the mapping from column name to value that \<^verbatim>\<open>row._asdict()\<close> yields; a table has
  its column names and its rows (in stored order, duplicates kept); a database maps table
  names to tables and holds what is committed. A \<^verbatim>\<open>Table\<close> object is the column list read
  when the table was reflected (or declared).

  What the database library does is modelled as follows.
  \<^item> A statement either completes or raises; waiting for a lock held by another session
    is not represented.
  \<^item> A statement raises when its table is not in the database, and an insert raises when
    it names a column that the \<^verbatim>\<open>Table\<close> object or the stored table does not have, or a
    column called \<^verbatim>\<open>self\<close>, which \<^verbatim>\<open>values(**row)\<close> cannot take as a keyword. Types,
    nullability, uniqueness constraints and column defaults are not represented.
  \<^item> An insert stores a value for every column of the table: the value the inserted row
    gives, and \<open>Null\<close> for a column the row does not name.
  \<^item> A session sees its own uncommitted work; its commit removes from a table the rows its
    \<^verbatim>\<open>DELETE\<close> found there and adds the rows it inserted, and keeps the rows another session
    has committed to the table in between.
  \<^item> A select returns the stored rows as they are: a \<^verbatim>\<open>Table\<close> object is taken to list
    the columns its table has when it is read (the program never alters a table). The value
    of the \<^verbatim>\<open>id\<close> column of the tracking table, which the database assigns, is not
    represented.
  \<^item> Opening, committing, rolling back and closing a session, DDL issued through an engine,
    and logging do not raise.
\<close>

type_synonym tname = string

datatype val = Null | IntV int | StrV string | TimeV int

type_synonym row = "(string \<times> val) list"

record table =
  cols :: "string list"
  rows :: "row list"

type_synonym database = "tname \<rightharpoonup> table"

text \<open>\<^verbatim>\<open>MetaData.tables\<close>: the \<^verbatim>\<open>Table\<close> objects known so far, by name.\<close>

type_synonym metadata = "tname \<rightharpoonup> string list"

text \<open>
  The uncommitted work of one session: for each table the session has written, the
  committed rows that its last \<^verbatim>\<open>DELETE\<close> removed and the rows it has inserted since.
\<close>

type_synonym session = "tname \<rightharpoonup> (row list \<times> row list)"

datatype side = Primary | Secondary

datatype exn =
    NoSuchTableError tname
  | ProgrammingError tname
  | CompileError tname
  | AttributeError string
  | TypeError string

datatype level = INFO | ERROR

text \<open>One constructor for each logging call of the source, in source order.\<close>

datatype msg =
    Creating_table tname
  | Table_created tname
  | Creating_tracking_table
  | Tracking_table_created
  | First_run_check_failed exn
  | Tracking_updated tname
  | Tracking_update_failed tname exn
  | Synchronized "tname list"
  | Sync_failed "tname list" exn
  | First_run_detected
  | Not_first_run
  | Setting_up tname
  | Missing_in_primary tname
  | Setup_complete

record world =
  primary :: database
  secondary :: database
  primary_metadata :: metadata
  secondary_metadata :: metadata
  utc_clock :: "nat \<Rightarrow> int"
  clock_reads :: nat
  open_sessions :: "side list"
  log :: "(level \<times> msg) list"

text \<open>
  A call returns a value or raises, and in both cases leaves a world behind:
  \<open>(Inr v, w)\<close> is a normal return, \<open>(Inl e, w)\<close> an exception that reaches the caller.
\<close>

definition bind_ex ::
  "(exn + 'a) \<times> world \<Rightarrow> ('a \<Rightarrow> world \<Rightarrow> (exn + 'b) \<times> world) \<Rightarrow> (exn + 'b) \<times> world" where
  "bind_ex m f = (case m of (Inl e, w) \<Rightarrow> (Inl e, w) | (Inr x, w) \<Rightarrow> f x w)"

definition logger :: "level \<Rightarrow> msg \<Rightarrow> world \<Rightarrow> world" where
  "logger l m w = w\<lparr>log := log w @ [(l, m)]\<rparr>"

definition open_session :: "side \<Rightarrow> world \<Rightarrow> world" where
  "open_session sd w = w\<lparr>open_sessions := sd # open_sessions w\<rparr>"

definition close_session :: "side \<Rightarrow> world \<Rightarrow> world" where
  "close_session sd w = w\<lparr>open_sessions := remove1 sd (open_sessions w)\<rparr>"

text \<open>
  \<^verbatim>\<open>datetime.utcnow()\<close>: the \<open>n\<close>-th reading of the clock is \<open>utc_clock w n\<close>, whatever
  that is.
\<close>

definition utcnow :: "world \<Rightarrow> int \<times> world" where
  "utcnow w = (utc_clock w (clock_reads w), w\<lparr>clock_reads := Suc (clock_reads w)\<rparr>)"

section \<open>The database library\<close>

text \<open>
  \<^verbatim>\<open>Table(name, metadata, autoload_with=engine)\<close>: the object already in the metadata is
  returned as it is; otherwise the table is reflected from the database and added to the
  metadata, and a table the database does not have raises \<^verbatim>\<open>NoSuchTableError\<close>.
\<close>

definition load_table :: "metadata \<Rightarrow> database \<Rightarrow> tname \<Rightarrow> exn + (string list \<times> metadata)" where
  "load_table md db t =
     (case md t of
        Some cs \<Rightarrow> Inr (cs, md)
      | None \<Rightarrow>
         (case db t of
            None \<Rightarrow> Inl (NoSuchTableError t)
          | Some tb \<Rightarrow> Inr (cols tb, md(t \<mapsto> cols tb))))"

definition primary_table :: "tname \<Rightarrow> world \<Rightarrow> (exn + string list) \<times> world" where
  "primary_table t w =
     (case load_table (primary_metadata w) (primary w) t of
        Inl e \<Rightarrow> (Inl e, w)
      | Inr (cs, md) \<Rightarrow> (Inr cs, w\<lparr>primary_metadata := md\<rparr>))"

definition secondary_table :: "tname \<Rightarrow> world \<Rightarrow> (exn + string list) \<times> world" where
  "secondary_table t w =
     (case load_table (secondary_metadata w) (secondary w) t of
        Inl e \<Rightarrow> (Inl e, w)
      | Inr (cs, md) \<Rightarrow> (Inr cs, w\<lparr>secondary_metadata := md\<rparr>))"

text \<open>\<^verbatim>\<open>metadata.reflect()\<close>: every table of the database not yet in the metadata is loaded.\<close>

definition reflect :: "metadata \<Rightarrow> database \<Rightarrow> metadata" where
  "reflect md db =
     (\<lambda>t. case md t of Some cs \<Rightarrow> Some cs | None \<Rightarrow> map_option cols (db t))"

text \<open>
  \<^verbatim>\<open>metadata.create_all(engine)\<close>: every table of the metadata that the database does not
  have yet is created there, empty. It runs on the engine, outside every session, and is
  committed at once.
\<close>

definition create_all :: "metadata \<Rightarrow> database \<Rightarrow> database" where
  "create_all md db =
     (\<lambda>t. case db t of
            Some tb \<Rightarrow> Some tb
          | None \<Rightarrow> (case md t of Some cs \<Rightarrow> Some \<lparr>cols = cs, rows = []\<rparr> | None \<Rightarrow> None))"

text \<open>\<^verbatim>\<open>session.execute(table.select()).fetchall()\<close>\<close>

definition select_all :: "database \<Rightarrow> tname \<Rightarrow> exn + row list" where
  "select_all db t =
     (case db t of None \<Rightarrow> Inl (ProgrammingError t) | Some tb \<Rightarrow> Inr (rows tb))"

text \<open>
  \<^verbatim>\<open>session.execute(table.delete())\<close>: every row of the table is deleted, those committed
  and those the session has inserted itself.
\<close>

definition exec_delete :: "database \<Rightarrow> session \<Rightarrow> tname \<Rightarrow> exn + session" where
  "exec_delete db s t =
     (case db t of
        None \<Rightarrow> Inl (ProgrammingError t)
      | Some tb \<Rightarrow> Inr (s(t \<mapsto> (rows tb, []))))"

text \<open>
  The row a table with the columns \<open>cs\<close> stores when the row \<open>r\<close> is inserted: one value
  for each column, \<open>Null\<close> where \<open>r\<close> has none.
\<close>

definition stored_row :: "string list \<Rightarrow> row \<Rightarrow> row" where
  "stored_row cs r = map (\<lambda>c. (c, case map_of r c of Some v \<Rightarrow> v | None \<Rightarrow> Null)) cs"

text \<open>
  \<^verbatim>\<open>session.execute(table.insert().values(**r))\<close>, where \<open>cs\<close> are the columns of the
  \<^verbatim>\<open>Table\<close> object. The call \<^verbatim>\<open>values(**r)\<close> raises \<^verbatim>\<open>TypeError\<close> for the keyword
  \<^verbatim>\<open>self\<close>, the name of its own first parameter.
\<close>

definition exec_insert ::
  "string list \<Rightarrow> database \<Rightarrow> tname \<Rightarrow> row \<Rightarrow> session \<Rightarrow> exn + session" where
  "exec_insert cs db t r s =
     (if ''self'' \<in> set (map fst r) then Inl (TypeError ''self'')
      else if \<not> set (map fst r) \<subseteq> set cs then Inl (CompileError t)
      else
        (case db t of
           None \<Rightarrow> Inl (ProgrammingError t)
         | Some tb \<Rightarrow>
            if \<not> set (map fst r) \<subseteq> set (cols tb) then Inl (ProgrammingError t)
            else
              Inr (s(t \<mapsto>
                (case s t of
                   Some (deleted, inserted) \<Rightarrow> (deleted, inserted @ [stored_row (cols tb) r])
                 | None \<Rightarrow> ([], [stored_row (cols tb) r]))))))"

text \<open>
  \<^verbatim>\<open>session.commit()\<close>: each table the session has written loses the rows the session
  deleted (one occurrence for each) and gains the rows it inserted.
\<close>

definition commit_session :: "session \<Rightarrow> database \<Rightarrow> database" where
  "commit_session s db =
     (\<lambda>t. case s t of
            None \<Rightarrow> db t
          | Some (deleted, inserted) \<Rightarrow>
              map_option (\<lambda>tb. tb\<lparr>rows := fold remove1 deleted (rows tb) @ inserted\<rparr>) (db t))"

section \<open>The program\<close>

subsection \<open>Schema mirror\<close>

definition create_table_if_not_exists :: "tname \<Rightarrow> world \<Rightarrow> (exn + unit) \<times> world" where
  "create_table_if_not_exists table_name w =
     (if secondary_metadata w table_name = None then
        bind_ex (primary_table table_name (logger INFO (Creating_table table_name) w))
          (\<lambda>primary_tbl w1.
             (Inr (),
              logger INFO (Table_created table_name)
                (w1\<lparr>secondary := create_all (primary_metadata w1) (secondary w1)\<rparr>)))
      else (Inr (), w))"

subsection \<open>Sync tracking store\<close>

definition tracking_table_name :: tname where
  "tracking_table_name = ''sync_tracking''"

definition tracking_columns :: "string list" where
  "tracking_columns = [''id'', ''table_name'', ''last_synced_at'']"

definition create_sync_tracking_table :: "world \<Rightarrow> (exn + unit) \<times> world" where
  "create_sync_tracking_table w =
     (if secondary_metadata w tracking_table_name = None then
        (let w1 = logger INFO Creating_tracking_table w;
             w2 = w1\<lparr>secondary_metadata :=
                      (secondary_metadata w1)(tracking_table_name \<mapsto> tracking_columns)\<rparr>
         in case secondary w2 tracking_table_name of
              Some tb \<Rightarrow> (Inl (ProgrammingError tracking_table_name), w2)
            | None \<Rightarrow>
               (Inr (),
                logger INFO Tracking_table_created
                  (w2\<lparr>secondary := (secondary w2)
                         (tracking_table_name \<mapsto> \<lparr>cols = tracking_columns, rows = []\<rparr>)\<rparr>)))
      else (Inr (), w))"

definition is_first_run :: "world \<Rightarrow> (exn + bool) \<times> world" where
  "is_first_run w =
     bind_ex (secondary_table tracking_table_name w)
       (\<lambda>tracking_tbl w1.
          (let w2 = open_session Secondary w1 in
           case select_all (secondary w2) tracking_table_name of
             Inr result \<Rightarrow> (Inr (length result = 0), close_session Secondary w2)
           | Inl e \<Rightarrow>
              (Inr True, close_session Secondary (logger ERROR (First_run_check_failed e) w2))))"

text \<open>The rows the \<^verbatim>\<open>where\<close> clause of the upsert selects.\<close>

definition names_table :: "tname \<Rightarrow> row \<Rightarrow> bool" where
  "names_table t r = (map_of r ''table_name'' = Some (StrV t))"

text \<open>
  The statements inside the \<^verbatim>\<open>try\<close> of \<^verbatim>\<open>update_sync_tracking\<close>, up to the commit: the
  tracking table as it will be committed, or the exception raised. \<open>cs\<close> are the columns
  of the \<^verbatim>\<open>Table\<close> object, \<open>db\<close> is the committed secondary database, which is what a new
  session sees.
\<close>

definition tracking_upsert :: "string list \<Rightarrow> database \<Rightarrow> tname \<Rightarrow> int \<Rightarrow> exn + table" where
  "tracking_upsert cs db t now =
     (if ''table_name'' \<notin> set cs then Inl (AttributeError ''table_name'')
      else
        (case db tracking_table_name of
           None \<Rightarrow> Inl (ProgrammingError tracking_table_name)
         | Some tb \<Rightarrow>
            if ''table_name'' \<notin> set (cols tb) then Inl (ProgrammingError tracking_table_name)
            else if ''last_synced_at'' \<notin> set cs then Inl (CompileError tracking_table_name)
            else if ''last_synced_at'' \<notin> set (cols tb)
              then Inl (ProgrammingError tracking_table_name)
            else if filter (names_table t) (rows tb) \<noteq> [] then
              Inr (tb\<lparr>rows := map (\<lambda>r. if names_table t r
                                         then AList.update ''last_synced_at'' (TimeV now) r
                                         else r) (rows tb)\<rparr>)
            else
              Inr (tb\<lparr>rows := rows tb @
                       [[(''table_name'', StrV t), (''last_synced_at'', TimeV now)]]\<rparr>)))"

definition update_sync_tracking :: "tname \<Rightarrow> world \<Rightarrow> (exn + unit) \<times> world" where
  "update_sync_tracking table_name w =
     bind_ex (secondary_table tracking_table_name w)
       (\<lambda>tracking_tbl w1.
          (let w2 = open_session Secondary w1;
               (now, w3) = utcnow w2;
               w4 = (case tracking_upsert tracking_tbl (secondary w3) table_name now of
                       Inr tb \<Rightarrow>
                         logger INFO (Tracking_updated table_name)
                           (w3\<lparr>secondary := (secondary w3)(tracking_table_name \<mapsto> tb)\<rparr>)
                     | Inl e \<Rightarrow> logger ERROR (Tracking_update_failed table_name e) w3)
           in (Inr (), close_session Secondary w4)))"

subsection \<open>Table synchronizer\<close>

text \<open>The inner loop of \<^verbatim>\<open>sync_table_changes\<close>: one insert per row read.\<close>

fun insert_rows ::
  "string list \<Rightarrow> database \<Rightarrow> tname \<Rightarrow> row list \<Rightarrow> session \<Rightarrow> exn + session" where
  "insert_rows cs db t [] s = Inr s"
| "insert_rows cs db t (r # rs) s =
     (case exec_insert cs db t r s of
        Inl e \<Rightarrow> Inl e
      | Inr s1 \<Rightarrow> insert_rows cs db t rs s1)"

text \<open>
  The body of the outer loop for one table name, up to the inserts: the table is mirrored,
  read from the primary, and deleted and refilled in the secondary session. \<open>s\<close> is the
  uncommitted work of the secondary session of \<^verbatim>\<open>sync_table_changes\<close>.
\<close>

definition copy_table :: "tname \<Rightarrow> world \<Rightarrow> session \<Rightarrow> (exn + session) \<times> world" where
  "copy_table table_name w s =
     bind_ex (create_table_if_not_exists table_name w) (\<lambda>u w1.
     bind_ex (primary_table table_name w1) (\<lambda>primary_tbl w2.
     bind_ex (secondary_table table_name w2) (\<lambda>secondary_tbl w3.
       (case select_all (primary w3) table_name of
          Inl e \<Rightarrow> (Inl e, w3)
        | Inr primary_data \<Rightarrow>
           (case exec_delete (secondary w3) s table_name of
              Inl e \<Rightarrow> (Inl e, w3)
            | Inr s1 \<Rightarrow>
               (case insert_rows secondary_tbl (secondary w3) table_name primary_data s1 of
                  Inl e \<Rightarrow> (Inl e, w3)
                | Inr s2 \<Rightarrow> (Inr s2, w3)))))))"

text \<open>
  The whole body of the outer loop: the copy, then the tracking update, which works in a
  session of its own.
\<close>

definition sync_table :: "tname \<Rightarrow> world \<Rightarrow> session \<Rightarrow> (exn + session) \<times> world" where
  "sync_table table_name w s =
     bind_ex (copy_table table_name w s) (\<lambda>s2 w3.
     bind_ex (update_sync_tracking table_name w3) (\<lambda>u w4. (Inr s2, w4)))"

fun sync_tables_loop :: "tname list \<Rightarrow> world \<Rightarrow> session \<Rightarrow> (exn + session) \<times> world" where
  "sync_tables_loop [] w s = (Inr s, w)"
| "sync_tables_loop (table_name # rest) w s =
     (case sync_table table_name w s of
        (Inl e, w1) \<Rightarrow> (Inl e, w1)
      | (Inr s1, w1) \<Rightarrow> sync_tables_loop rest w1 s1)"

text \<open>
  The \<^verbatim>\<open>try\<close> block of \<^verbatim>\<open>sync_table_changes\<close> up to the commit, run with both sessions open:
  \<open>Inr s\<close> when the loop reaches the commit with the uncommitted work \<open>s\<close>, \<open>Inl e\<close> when
  the \<^verbatim>\<open>except\<close> clause is entered with \<open>e\<close>.
\<close>

definition try_batch :: "tname list \<Rightarrow> world \<Rightarrow> (exn + session) \<times> world" where
  "try_batch table_names w =
     sync_tables_loop table_names (open_session Secondary (open_session Primary w)) Map.empty"

definition sync_table_changes :: "tname list \<Rightarrow> world \<Rightarrow> (exn + unit) \<times> world" where
  "sync_table_changes table_names w =
     (let w4 = (case try_batch table_names w of
                  (Inr s, w3) \<Rightarrow>
                    logger INFO (Synchronized table_names)
                      (w3\<lparr>secondary := commit_session s (secondary w3)\<rparr>)
                | (Inl e, w3) \<Rightarrow> logger ERROR (Sync_failed table_names e) w3)
      in (Inr (), close_session Secondary (close_session Primary w4)))"

subsection \<open>Bootstrap\<close>

text \<open>
  The \<^verbatim>\<open>__main__\<close> block. The list \<^verbatim>\<open>tables_to_sync\<close>, a constant of the source, is a
  parameter here.
\<close>

text \<open>The closing loop of the \<^verbatim>\<open>__main__\<close> block, which only logs.\<close>

fun report_tables :: "tname list \<Rightarrow> world \<Rightarrow> world" where
  "report_tables [] w = w"
| "report_tables (table_name # rest) w =
     report_tables rest
       (if primary_metadata w table_name \<noteq> None
        then logger INFO (Setting_up table_name) w
        else logger ERROR (Missing_in_primary table_name) w)"

definition main_program :: "tname list \<Rightarrow> world \<Rightarrow> (exn + unit) \<times> world" where
  "main_program tables_to_sync w =
     (let w1 = w\<lparr>primary_metadata := reflect (primary_metadata w) (primary w)\<rparr>;
          w2 = w1\<lparr>secondary_metadata := reflect (secondary_metadata w1) (secondary w1)\<rparr>
      in bind_ex (create_sync_tracking_table w2) (\<lambda>u w3.
         bind_ex (is_first_run w3) (\<lambda>first w4.
         bind_ex (if first
                  then sync_table_changes tables_to_sync (logger INFO First_run_detected w4)
                  else (Inr (), logger INFO Not_first_run w4)) (\<lambda>u w5.
           (Inr (), logger INFO Setup_complete (report_tables tables_to_sync w5))))))"

text \<open>
  The \<^verbatim>\<open>__main__\<close> block up to its branch: the two reflections, the creation of the
  tracking table and the first-run check, whose result it returns.
\<close>

definition bootstrap_check :: "world \<Rightarrow> (exn + bool) \<times> world" where
  "bootstrap_check w =
     (let w1 = w\<lparr>primary_metadata := reflect (primary_metadata w) (primary w)\<rparr>;
          w2 = w1\<lparr>secondary_metadata := reflect (secondary_metadata w1) (secondary w1)\<rparr>
      in bind_ex (create_sync_tracking_table w2) (\<lambda>u w3. is_first_run w3))"

section \<open>Relations between states\<close>

text \<open>
  \<open>data_kept db db'\<close>: from \<open>db\<close> to \<open>db'\<close> no table was dropped, every table other than
  the tracking table that \<open>db\<close> has is the same in \<open>db'\<close>, and a table other than the
  tracking table that \<open>db\<close> lacks is absent from \<open>db'\<close> or empty there.
\<close>

definition data_kept :: "database \<Rightarrow> database \<Rightarrow> bool" where
  "data_kept db db' \<longleftrightarrow>
     (\<forall>t. (db t \<noteq> None \<longrightarrow> db' t \<noteq> None) \<and>
          (t \<noteq> tracking_table_name \<longrightarrow>
             (case db t of
                Some tb \<Rightarrow> db' t = Some tb
              | None \<Rightarrow> (case db' t of None \<Rightarrow> True | Some tb' \<Rightarrow> rows tb' = []))))"

text \<open>
  \<open>frame w w'\<close>: what no operation of the program changes between \<open>w\<close> and \<open>w'\<close>.
\<close>

definition frame :: "world \<Rightarrow> world \<Rightarrow> bool" where
  "frame w w' \<longleftrightarrow>
     primary w' = primary w \<and> utc_clock w' = utc_clock w \<and>
     open_sessions w' = open_sessions w \<and>
     data_kept (secondary w) (secondary w') \<and>
     (\<forall>t cs. secondary_metadata w t = Some cs \<longrightarrow> secondary_metadata w' t = Some cs) \<and>
     (\<forall>t. primary w t = None \<longrightarrow> primary_metadata w' t = primary_metadata w t)"


text \<open>
  The reads and writes of \<^verbatim>\<open>copy_table\<close> once both \<^verbatim>\<open>Table\<close> objects are there: the
  select on the primary, the delete and the inserts in the secondary session.
\<close>

definition refill ::
  "string list \<Rightarrow> database \<Rightarrow> database \<Rightarrow> tname \<Rightarrow> session \<Rightarrow> exn + session" where
  "refill scs pdb sdb t s =
     (case select_all pdb t of
        Inl e \<Rightarrow> Inl e
      | Inr primary_data \<Rightarrow>
         (case exec_delete sdb s t of
            Inl e \<Rightarrow> Inl e
          | Inr s1 \<Rightarrow> insert_rows scs sdb t primary_data s1))"

section \<open>The tracking records and the log\<close>

text \<open>The records of the tracking table that name the table \<open>t\<close>.\<close>

definition tracking_records :: "tname \<Rightarrow> world \<Rightarrow> row list" where
  "tracking_records t w =
     (case secondary w tracking_table_name of
        None \<Rightarrow> []
      | Some tb \<Rightarrow> filter (names_table t) (rows tb))"

text \<open>The lines that the log of \<open>w'\<close> has after those of \<open>w\<close>.\<close>

definition appended :: "world \<Rightarrow> world \<Rightarrow> (level \<times> msg) list" where
  "appended w w' = drop (length (log w)) (log w')"

text \<open>
  The two log lines of \<^verbatim>\<open>update_sync_tracking\<close>, the one after its commit and the one of
  its \<^verbatim>\<open>except\<close> clause. A call that opens its session reads the clock once and then
  writes exactly one of them; nothing else reads the clock.
\<close>

definition tracking_attempt :: "level \<times> msg \<Rightarrow> bool" where
  "tracking_attempt e =
     (case snd e of
        Tracking_updated t \<Rightarrow> True
      | Tracking_update_failed t x \<Rightarrow> True
      | _ \<Rightarrow> False)"

text \<open>
  \<open>stamp_pos e es\<close>: where the last occurrence of the line \<open>e\<close> stands among the lines
  \<open>es\<close>, counted in tracking updates: the number of lines of tracking updates before it;
  \<open>None\<close> when \<open>e\<close> is not among \<open>es\<close>. For the line of a committed tracking update this
  is the number of clock readings that came before the reading of that update.
\<close>

fun stamp_pos :: "level \<times> msg \<Rightarrow> (level \<times> msg) list \<Rightarrow> nat option" where
  "stamp_pos e [] = None"
| "stamp_pos e (x # xs) =
     (case stamp_pos e xs of
        Some n \<Rightarrow> Some (n + (if tracking_attempt x then 1 else 0))
      | None \<Rightarrow> if x = e then Some 0 else None)"

text \<open>
  \<open>quiet w w'\<close>: from \<open>w\<close> to \<open>w'\<close> no tracking update was attempted, the clock was not
  read and the tracking records are the same. \<open>tracked t w w'\<close>: the property of the
  records of \<open>t\<close> that every step of a batch keeps.
\<close>

definition quiet :: "world \<Rightarrow> world \<Rightarrow> bool" where
  "quiet w w' \<longleftrightarrow>
     (\<exists>new. log w' = log w @ new \<and> (\<forall>e \<in> set new. \<not> tracking_attempt e)) \<and>
     clock_reads w' = clock_reads w \<and> utc_clock w' = utc_clock w \<and>
     (\<forall>t. tracking_records t w' = tracking_records t w)"

definition tracked :: "tname \<Rightarrow> world \<Rightarrow> world \<Rightarrow> bool" where
  "tracked t w w' \<longleftrightarrow>
     utc_clock w' = utc_clock w \<and>
     (\<exists>new. log w' = log w @ new \<and>
        clock_reads w' = clock_reads w + length (filter tracking_attempt new) \<and>
        (length (tracking_records t w) \<le> 1 \<longrightarrow>
           length (tracking_records t w') \<le> 1 \<and>
           (case stamp_pos (INFO, Tracking_updated t) new of
              None \<Rightarrow> tracking_records t w' = tracking_records t w
            | Some n \<Rightarrow>
               (\<exists>r. tracking_records t w' = [r] \<and>
                    map_of r ''last_synced_at'' =
                      Some (TimeV (utc_clock w (clock_reads w + n)))))))"

section \<open>Example states\<close>

text \<open>
  A source with one table of two rows, and a destination that already has that table,
  with one outdated row, and an empty tracking table. Both metadata caches are loaded, as
  they are after the bootstrap. There is no table \<^verbatim>\<open>another_table\<close> in the source.
\<close>

definition example_rows :: "row list" where
  "example_rows =
     [[(''id'', IntV 1), (''name'', StrV ''a'')], [(''id'', IntV 2), (''name'', StrV ''b'')]]"

definition mirrored_world :: world where
  "mirrored_world =
     \<lparr>primary = [''example_table'' \<mapsto> \<lparr>cols = [''id'', ''name''], rows = example_rows\<rparr>],
      secondary =
        [''example_table'' \<mapsto>
           \<lparr>cols = [''id'', ''name''], rows = [[(''id'', IntV 9), (''name'', StrV ''old'')]]\<rparr>,
         ''sync_tracking'' \<mapsto> \<lparr>cols = tracking_columns, rows = []\<rparr>],
      primary_metadata = [''example_table'' \<mapsto> [''id'', ''name'']],
      secondary_metadata =
        [''example_table'' \<mapsto> [''id'', ''name''], ''sync_tracking'' \<mapsto> tracking_columns],
      utc_clock = (\<lambda>n. 1000 + int n),
      clock_reads = 0,
      open_sessions = [],
      log = []\<rparr>"

text \<open>That state after a first, successful synchronization of \<^verbatim>\<open>example_table\<close>.\<close>

definition synced_once_world :: world where
  "synced_once_world = snd (sync_table_changes [''example_table''] mirrored_world)"


text \<open>
  The same databases at the start of a later run of the program: the tracking table holds
  the record of an earlier synchronization, and the metadata of the new process are empty.
\<close>

definition tracked_world :: world where
  "tracked_world =
     mirrored_world
       \<lparr>secondary := (secondary mirrored_world)
          (''sync_tracking'' \<mapsto>
             \<lparr>cols = tracking_columns,
              rows = [[(''table_name'', StrV ''example_table''),
                       (''last_synced_at'', TimeV 900)]]\<rparr>),
        primary_metadata := Map.empty,
        secondary_metadata := Map.empty\<rparr>"

text \<open>
  A destination in which the tracking table was never created, seen by a process whose
  metadata are empty.
\<close>

definition unprepared_world :: world where
  "unprepared_world =
     mirrored_world
       \<lparr>secondary :=
          [''example_table'' \<mapsto>
             \<lparr>cols = [''id'', ''name''], rows = [[(''id'', IntV 9), (''name'', StrV ''old'')]]\<rparr>],
        primary_metadata := Map.empty,
        secondary_metadata := Map.empty\<rparr>"

text \<open>
  A source with two tables and an empty destination; the secondary metadata know the
  tracking table, but the table is no longer in the destination database.
\<close>

definition untracked_world :: world where
  "untracked_world =
     \<lparr>primary =
        [''example_table'' \<mapsto> \<lparr>cols = [''id'', ''name''], rows = example_rows\<rparr>,
         ''another_table'' \<mapsto> \<lparr>cols = [''id''], rows = [[(''id'', IntV 7)]]\<rparr>],
      secondary = Map.empty,
      primary_metadata = [''example_table'' \<mapsto> [''id'', ''name''], ''another_table'' \<mapsto> [''id'']],
      secondary_metadata = [''sync_tracking'' \<mapsto> tracking_columns],
      utc_clock = (\<lambda>n. 1000 + int n),
      clock_reads = 0,
      open_sessions = [],
      log = []\<rparr>"

text \<open>
  The same source and the same empty destination at the start of a process: no metadata
  are loaded and no tracking table has been created.
\<close>

definition unloaded_world :: world where
  "unloaded_world =
     untracked_world\<lparr>primary_metadata := Map.empty, secondary_metadata := Map.empty\<rparr>"

text \<open>
  The state \<open>untracked_world\<close> in the middle of \<^verbatim>\<open>sync_table_changes\<close>: both sessions are open and
  \<^verbatim>\<open>example_table\<close> has just been copied into the secondary session.
\<close>

definition copied_world :: world where
  "copied_world =
     snd (copy_table ''example_table''
            (open_session Secondary (open_session Primary untracked_world)) Map.empty)"

section \<open>Basic facts\<close>

lemma logger_simps [simp]:
  "primary (logger l m w) = primary w"
  "secondary (logger l m w) = secondary w"
  "primary_metadata (logger l m w) = primary_metadata w"
  "secondary_metadata (logger l m w) = secondary_metadata w"
  "utc_clock (logger l m w) = utc_clock w"
  "clock_reads (logger l m w) = clock_reads w"
  "open_sessions (logger l m w) = open_sessions w"
  "log (logger l m w) = log w @ [(l, m)]"
  by (simp_all add: logger_def)

lemma open_session_simps [simp]:
  "primary (open_session sd w) = primary w"
  "secondary (open_session sd w) = secondary w"
  "primary_metadata (open_session sd w) = primary_metadata w"
  "secondary_metadata (open_session sd w) = secondary_metadata w"
  "utc_clock (open_session sd w) = utc_clock w"
  "clock_reads (open_session sd w) = clock_reads w"
  "open_sessions (open_session sd w) = sd # open_sessions w"
  "log (open_session sd w) = log w"
  by (simp_all add: open_session_def)

lemma close_session_simps [simp]:
  "primary (close_session sd w) = primary w"
  "secondary (close_session sd w) = secondary w"
  "primary_metadata (close_session sd w) = primary_metadata w"
  "secondary_metadata (close_session sd w) = secondary_metadata w"
  "utc_clock (close_session sd w) = utc_clock w"
  "clock_reads (close_session sd w) = clock_reads w"
  "open_sessions (close_session sd w) = remove1 sd (open_sessions w)"
  "log (close_session sd w) = log w"
  by (simp_all add: close_session_def)

lemma primary_table_Inl:
  "primary_table t w = (Inl e, w') \<Longrightarrow>
     w' = w \<and> e = NoSuchTableError t \<and> primary_metadata w t = None \<and> primary w t = None"
  by (auto simp: primary_table_def load_table_def split: option.splits)

lemma primary_table_Inr:
  "primary_table t w = (Inr cs, w') \<Longrightarrow>
     w' = w\<lparr>primary_metadata := (primary_metadata w)(t \<mapsto> cs)\<rparr> \<and>
     (primary_metadata w t = Some cs \<or>
      (primary_metadata w t = None \<and> (\<exists>tb. primary w t = Some tb \<and> cs = cols tb)))"
  by (auto simp: primary_table_def load_table_def fun_upd_idem split: option.splits)

lemma secondary_table_Inl:
  "secondary_table t w = (Inl e, w') \<Longrightarrow>
     w' = w \<and> e = NoSuchTableError t \<and> secondary_metadata w t = None \<and> secondary w t = None"
  by (auto simp: secondary_table_def load_table_def split: option.splits)

lemma secondary_table_Inr:
  "secondary_table t w = (Inr cs, w') \<Longrightarrow>
     w' = w\<lparr>secondary_metadata := (secondary_metadata w)(t \<mapsto> cs)\<rparr> \<and>
     (secondary_metadata w t = Some cs \<or>
      (secondary_metadata w t = None \<and> (\<exists>tb. secondary w t = Some tb \<and> cs = cols tb)))"
  by (auto simp: secondary_table_def load_table_def fun_upd_idem split: option.splits)

lemma data_kept_refl [simp]: "data_kept db db"
  by (simp add: data_kept_def split: option.splits)

lemma data_kept_trans: "data_kept a b \<Longrightarrow> data_kept b c \<Longrightarrow> data_kept a c"
  unfolding data_kept_def
  apply (intro allI)
  subgoal for t
    apply (drule spec [of _ t])+
    apply (auto split: option.splits)
    done
  done

lemma data_kept_create_all: "data_kept db (create_all md db)"
  by (auto simp: data_kept_def create_all_def split: option.splits)

lemma data_kept_tracking:
  "db tracking_table_name \<noteq> None \<Longrightarrow> data_kept db (db(tracking_table_name \<mapsto> tb))"
  by (auto simp: data_kept_def split: option.splits)

lemma frame_refl [simp]: "frame w w"
  by (simp add: frame_def)

lemma frame_trans: "frame a b \<Longrightarrow> frame b c \<Longrightarrow> frame a c"
  unfolding frame_def by (auto intro: data_kept_trans)

lemma frame_logger [simp]: "frame w (logger l m w)"
  by (simp add: frame_def)

lemma tracking_upsert_Inr:
  "tracking_upsert cs db t now = Inr tb \<Longrightarrow> db tracking_table_name \<noteq> None"
  by (auto simp: tracking_upsert_def split: option.splits if_splits)

lemma frame_primary_table: "primary_table t w = (r, w') \<Longrightarrow> frame w w'"
  by (cases r) (auto simp: frame_def dest!: primary_table_Inl primary_table_Inr)

lemma frame_secondary_table: "secondary_table t w = (r, w') \<Longrightarrow> frame w w'"
  by (cases r) (auto simp: frame_def dest!: secondary_table_Inl secondary_table_Inr)

lemma frame_create_table_if_not_exists:
  "create_table_if_not_exists t w = (r, w') \<Longrightarrow> frame w w'"
  by (auto simp: create_table_if_not_exists_def bind_ex_def frame_def data_kept_create_all
      split: prod.splits sum.splits if_splits dest!: primary_table_Inl primary_table_Inr)

lemma frame_update_sync_tracking:
  "update_sync_tracking t w = (r, w') \<Longrightarrow> frame w w'"
  by (auto simp: update_sync_tracking_def bind_ex_def frame_def utcnow_def Let_def
        data_kept_tracking
      split: prod.splits sum.splits
      dest!: secondary_table_Inl secondary_table_Inr tracking_upsert_Inr)

lemma frame_copy_table: "copy_table t w s = (r, w') \<Longrightarrow> frame w w'"
  unfolding copy_table_def bind_ex_def
  by (auto split: prod.splits sum.splits
      dest!: frame_create_table_if_not_exists frame_primary_table frame_secondary_table
      intro: frame_trans)

lemma frame_sync_table: "sync_table t w s = (r, w') \<Longrightarrow> frame w w'"
  unfolding sync_table_def bind_ex_def
  by (auto split: prod.splits sum.splits
      dest!: frame_copy_table frame_update_sync_tracking
      intro: frame_trans)

lemma frame_sync_tables_loop: "sync_tables_loop ts w s = (r, w') \<Longrightarrow> frame w w'"
proof (induction ts arbitrary: w s)
  case Nil
  then show ?case by simp
next
  case (Cons t ts)
  show ?case
  proof (cases "sync_table t w s")
    case (Pair r1 w1)
    then have f1: "frame w w1" by (rule frame_sync_table)
    show ?thesis
    proof (cases r1)
      case (Inl e)
      with Pair Cons.prems f1 show ?thesis by simp
    next
      case (Inr s1)
      with Pair Cons.prems have "sync_tables_loop ts w1 s1 = (r, w')" by simp
      then have "frame w1 w'" by (rule Cons.IH)
      with f1 show ?thesis by (rule frame_trans)
    qed
  qed
qed

lemma frame_try_batch:
  "primary (snd (try_batch ts w)) = primary w \<and>
   utc_clock (snd (try_batch ts w)) = utc_clock w \<and>
   open_sessions (snd (try_batch ts w)) = Secondary # Primary # open_sessions w \<and>
   data_kept (secondary w) (secondary (snd (try_batch ts w)))"
proof -
  let ?w0 = "open_session Secondary (open_session Primary w)"
  have "sync_tables_loop ts ?w0 Map.empty = (fst (try_batch ts w), snd (try_batch ts w))"
    by (simp add: try_batch_def)
  then have "frame ?w0 (snd (try_batch ts w))" by (rule frame_sync_tables_loop)
  then show ?thesis by (simp add: frame_def)
qed

lemma sync_table_changes_snd:
  "snd (sync_table_changes ts w) =
     close_session Secondary (close_session Primary
       (case fst (try_batch ts w) of
          Inr s \<Rightarrow>
            logger INFO (Synchronized ts)
              ((snd (try_batch ts w))
                 \<lparr>secondary := commit_session s (secondary (snd (try_batch ts w)))\<rparr>)
        | Inl e \<Rightarrow> logger ERROR (Sync_failed ts e) (snd (try_batch ts w))))"
  by (simp add: sync_table_changes_def split: prod.splits sum.splits)

subsection \<open>What a table that was synchronized leaves in the session\<close>

lemma fold_remove1_append: "fold remove1 xs (xs @ ys) = ys"
  by (induction xs) simp_all

lemma fold_remove1_self [simp]: "fold remove1 xs xs = []"
  using fold_remove1_append [of xs "[]"] by simp


lemma exec_insert_Inr:
  "exec_insert cs db t r s = Inr s' \<Longrightarrow> s t = Some (d, i) \<Longrightarrow> db t = Some tb \<Longrightarrow>
     s' = s(t \<mapsto> (d, i @ [stored_row (cols tb) r]))"
  by (auto simp: exec_insert_def split: if_splits)

lemma insert_rows_Inr:
  "insert_rows cs db t rs s = Inr s' \<Longrightarrow> s t = Some (d, i) \<Longrightarrow> db t = Some tb \<Longrightarrow>
     s' = s(t \<mapsto> (d, i @ map (stored_row (cols tb)) rs))"
proof (induction rs arbitrary: s i)
  case Nil
  then show ?case by (simp add: fun_upd_idem)
next
  case (Cons r rs)
  from Cons.prems(1) obtain s1 where
    s1: "exec_insert cs db t r s = Inr s1" and rest: "insert_rows cs db t rs s1 = Inr s'"
    by (auto split: sum.splits)
  from s1 Cons.prems(2,3) have e: "s1 = s(t \<mapsto> (d, i @ [stored_row (cols tb) r]))"
    by (rule exec_insert_Inr)
  then have "s1 t = Some (d, i @ [stored_row (cols tb) r])" by simp
  from Cons.IH [OF rest this Cons.prems(3)] e show ?case by (auto simp: fun_eq_iff)
qed

lemma sync_table_Inr:
  assumes "sync_table t w s = (Inr s', w')"
  shows "\<exists>src tb. primary w t = Some src \<and>
           s' = s(t \<mapsto> (rows tb, map (stored_row (cols tb)) (rows src))) \<and>
           secondary w' t \<noteq> None \<and>
           (t \<noteq> tracking_table_name \<longrightarrow> secondary w' t = Some tb)"
proof -
  from assms obtain u w1 pcs w2 scs w3 pd s1 u' where
    c: "create_table_if_not_exists t w = (Inr u, w1)" and
    p: "primary_table t w1 = (Inr pcs, w2)" and
    sc: "secondary_table t w2 = (Inr scs, w3)" and
    sel: "select_all (primary w3) t = Inr pd" and
    del: "exec_delete (secondary w3) s t = Inr s1" and
    ins: "insert_rows scs (secondary w3) t pd s1 = Inr s'" and
    upd: "update_sync_tracking t w3 = (Inr u', w')"
    unfolding sync_table_def copy_table_def bind_ex_def
    by (auto split: prod.splits sum.splits)
  have "frame w w1" using c by (rule frame_create_table_if_not_exists)
  moreover have "frame w1 w2" using p by (rule frame_primary_table)
  moreover have "frame w2 w3" using sc by (rule frame_secondary_table)
  ultimately have "primary w3 = primary w" by (simp add: frame_def)
  with sel obtain src where src: "primary w t = Some src" "pd = rows src"
    by (auto simp: select_all_def split: option.splits)
  from del obtain tb where tb: "secondary w3 t = Some tb" and s1: "s1 = s(t \<mapsto> (rows tb, []))"
    by (auto simp: exec_delete_def split: option.splits)
  from s1 have "s1 t = Some (rows tb, [])" by simp
  from insert_rows_Inr [OF ins this tb] have
    "s' = s1(t \<mapsto> (rows tb, [] @ map (stored_row (cols tb)) pd))" .
  then have s': "s' = s(t \<mapsto> (rows tb, map (stored_row (cols tb)) (rows src)))"
    unfolding s1 src(2) by simp
  have "frame w3 w'" using upd by (rule frame_update_sync_tracking)
  with tb have "secondary w' t \<noteq> None"
    and "t \<noteq> tracking_table_name \<longrightarrow> secondary w' t = Some tb"
    by (auto simp: frame_def data_kept_def dest: spec [of _ t])
  with src s' show ?thesis by blast
qed

lemma sync_tables_loop_Inr:
  "sync_tables_loop ts w s = (Inr s', w') \<Longrightarrow>
     (\<forall>t. t \<notin> set ts \<longrightarrow> s' t = s t) \<and>
     (\<forall>t \<in> set ts. \<exists>src. primary w t = Some src \<and> secondary w' t \<noteq> None \<and>
         (t \<noteq> tracking_table_name \<longrightarrow>
            (\<exists>tb. secondary w' t = Some tb \<and>
                  s' t = Some (rows tb, map (stored_row (cols tb)) (rows src)))))"
proof (induction ts arbitrary: w s)
  case Nil
  then show ?case by simp
next
  case (Cons t0 ts)
  from Cons.prems obtain s1 w1 where
    one: "sync_table t0 w s = (Inr s1, w1)" and rest: "sync_tables_loop ts w1 s1 = (Inr s', w')"
    by (auto split: prod.splits sum.splits)
  from sync_table_Inr [OF one] obtain src0 tb0 where
    src0: "primary w t0 = Some src0"
      "s1 = s(t0 \<mapsto> (rows tb0, map (stored_row (cols tb0)) (rows src0)))"
      "secondary w1 t0 \<noteq> None"
      "t0 \<noteq> tracking_table_name \<longrightarrow> secondary w1 t0 = Some tb0"
    by blast
  have f1: "frame w w1" using one by (rule frame_sync_table)
  have f2: "frame w1 w'" using rest by (rule frame_sync_tables_loop)
  note IH = Cons.IH [OF rest]
  have p1: "primary w1 = primary w" using f1 by (simp add: frame_def)
  show ?case
  proof (intro conjI allI ballI impI)
    fix t assume "t \<notin> set (t0 # ts)"
    with IH src0 show "s' t = s t" by simp
  next
    fix t assume t: "t \<in> set (t0 # ts)"
    show "\<exists>src. primary w t = Some src \<and> secondary w' t \<noteq> None \<and>
         (t \<noteq> tracking_table_name \<longrightarrow>
            (\<exists>tb. secondary w' t = Some tb \<and>
                  s' t = Some (rows tb, map (stored_row (cols tb)) (rows src))))"
    proof (cases "t \<in> set ts")
      case True
      with IH p1 show ?thesis by auto
    next
      case False
      with t have t0: "t = t0" by simp
      from False IH have s't: "s' t = s1 t" by simp
      from f2 src0(3) have ex: "secondary w' t0 \<noteq> None"
        by (auto simp: frame_def data_kept_def)
      have "secondary w' t0 = Some tb0" if "t0 \<noteq> tracking_table_name"
        using f2 src0(4) that by (auto simp: frame_def data_kept_def dest: spec [of _ t0])
      with t0 s't ex src0 show ?thesis by auto
    qed
  qed
qed

subsection \<open>One table, step by step\<close>

lemma secondary_table_fst:
  "fst (secondary_table t w) =
     (case secondary_metadata w t of
        Some cs \<Rightarrow> Inr cs
      | None \<Rightarrow> (case secondary w t of None \<Rightarrow> Inl (NoSuchTableError t) | Some tb \<Rightarrow> Inr (cols tb)))"
  by (simp add: secondary_table_def load_table_def split: option.splits)

lemma update_sync_tracking_unloadable:
  "fst (secondary_table tracking_table_name w) = Inl e \<Longrightarrow> update_sync_tracking t w = (Inl e, w)"
  by (cases "secondary_table tracking_table_name w")
    (auto simp: update_sync_tracking_def bind_ex_def dest: secondary_table_Inl)

lemma update_sync_tracking_loaded:
  fixes t :: tname and w :: world and cs :: "string list"
  assumes "fst (secondary_table tracking_table_name w) = Inr cs"
  defines "w' \<equiv> snd (update_sync_tracking t w)"
  defines "res \<equiv> tracking_upsert cs (secondary w) t (utc_clock w (clock_reads w))"
  shows "fst (update_sync_tracking t w) = Inr ()"
    and "primary w' = primary w"
    and "primary_metadata w' = primary_metadata w"
    and "secondary_metadata w' = (secondary_metadata w)(tracking_table_name \<mapsto> cs)"
    and "secondary w' =
          (case res of Inr tb \<Rightarrow> (secondary w)(tracking_table_name \<mapsto> tb) | Inl e \<Rightarrow> secondary w)"
    and "log w' = log w @
          [case res of Inr tb \<Rightarrow> (INFO, Tracking_updated t)
           | Inl e \<Rightarrow> (ERROR, Tracking_update_failed t e)]"
    and "clock_reads w' = Suc (clock_reads w)"
    and "utc_clock w' = utc_clock w"
proof -
  obtain w1 where l: "secondary_table tracking_table_name w = (Inr cs, w1)"
    using assms(1) by (cases "secondary_table tracking_table_name w") auto
  from secondary_table_Inr [OF l] have
    w1: "w1 = w\<lparr>secondary_metadata := (secondary_metadata w)(tracking_table_name \<mapsto> cs)\<rparr>"
    by simp
  have u: "update_sync_tracking t w =
     (Inr (), close_session Secondary
        (case res of
           Inr tb \<Rightarrow> logger INFO (Tracking_updated t)
             ((open_session Secondary w1)\<lparr>clock_reads := Suc (clock_reads w),
                 secondary := (secondary w)(tracking_table_name \<mapsto> tb)\<rparr>)
         | Inl e \<Rightarrow> logger ERROR (Tracking_update_failed t e)
             ((open_session Secondary w1)\<lparr>clock_reads := Suc (clock_reads w)\<rparr>)))"
    by (simp add: update_sync_tracking_def bind_ex_def l Let_def utcnow_def res_def w1
        split: sum.splits)
  show "fst (update_sync_tracking t w) = Inr ()" by (simp add: u)
  show "primary w' = primary w" by (simp add: w'_def u w1 split: sum.splits)
  show "primary_metadata w' = primary_metadata w" by (simp add: w'_def u w1 split: sum.splits)
  show "secondary_metadata w' = (secondary_metadata w)(tracking_table_name \<mapsto> cs)"
    by (simp add: w'_def u w1 split: sum.splits)
  show "secondary w' =
          (case res of Inr tb \<Rightarrow> (secondary w)(tracking_table_name \<mapsto> tb) | Inl e \<Rightarrow> secondary w)"
    by (simp add: w'_def u w1 split: sum.splits)
  show "log w' = log w @
          [case res of Inr tb \<Rightarrow> (INFO, Tracking_updated t)
           | Inl e \<Rightarrow> (ERROR, Tracking_update_failed t e)]"
    by (simp add: w'_def u w1 split: sum.splits)
  show "clock_reads w' = Suc (clock_reads w)" by (simp add: w'_def u w1 split: sum.splits)
  show "utc_clock w' = utc_clock w" by (simp add: w'_def u w1 split: sum.splits)
qed

lemma refill_pair:
  "(case select_all pdb t of
      Inl e \<Rightarrow> (Inl e, w3)
    | Inr primary_data \<Rightarrow>
       (case exec_delete sdb s t of
          Inl e \<Rightarrow> (Inl e, w3)
        | Inr s1 \<Rightarrow>
           (case insert_rows scs sdb t primary_data s1 of
              Inl e \<Rightarrow> (Inl e, w3)
            | Inr s2 \<Rightarrow> (Inr s2, w3)))) =
   (refill scs pdb sdb t s, w3)"
  by (simp add: refill_def split: sum.splits)

lemma copy_table_alt:
  "copy_table t w s =
     bind_ex (create_table_if_not_exists t w) (\<lambda>u w1.
     bind_ex (primary_table t w1) (\<lambda>primary_tbl w2.
     bind_ex (secondary_table t w2) (\<lambda>secondary_tbl w3.
       (refill secondary_tbl (primary w3) (secondary w3) t s, w3))))"
  unfolding copy_table_def refill_pair ..

lemmas copy_defs =
  copy_table_alt create_table_if_not_exists_def bind_ex_def primary_table_def
  secondary_table_def load_table_def create_all_def

lemma copy_table_prepared:
  assumes "secondary_metadata w t = Some scs" and "primary_metadata w t = Some pcs"
  shows "copy_table t w s = (refill scs (primary w) (secondary w) t s, w)"
  using assms by (simp add: copy_defs)

lemma copy_table_early:
  assumes "primary_metadata w t = None" and "primary w t = None"
  shows "fst (copy_table t w s) = Inl (NoSuchTableError t) \<and>
         primary (snd (copy_table t w s)) = primary w \<and>
         secondary (snd (copy_table t w s)) = secondary w \<and>
         primary_metadata (snd (copy_table t w s)) = primary_metadata w \<and>
         secondary_metadata (snd (copy_table t w s)) = secondary_metadata w"
  using assms by (cases "secondary_metadata w t") (simp_all add: copy_defs)

lemma copy_table_reaches:
  assumes "primary_metadata w t \<noteq> None \<or> primary w t \<noteq> None"
  shows "\<exists>scs pcs.
           secondary_metadata (snd (copy_table t w s)) t = Some scs \<and>
           primary_metadata (snd (copy_table t w s)) t = Some pcs \<and>
           fst (copy_table t w s) =
             refill scs (primary w) (secondary (snd (copy_table t w s))) t s"
proof (cases "secondary_metadata w t")
  case sn: None
  show ?thesis
  proof (cases "primary_metadata w t")
    case pn: None
    with assms obtain tb where tb: "primary w t = Some tb" by auto
    show ?thesis
    proof (cases "secondary w t")
      case None
      with sn pn tb show ?thesis by (simp add: copy_defs)
    next
      case (Some a)
      with sn pn tb show ?thesis by (simp add: copy_defs)
    qed
  next
    case ps: (Some pcs)
    show ?thesis
    proof (cases "secondary w t")
      case None
      with sn ps show ?thesis by (simp add: copy_defs)
    next
      case (Some a)
      with sn ps show ?thesis by (simp add: copy_defs)
    qed
  qed
next
  case ss: (Some scs)
  show ?thesis
  proof (cases "primary_metadata w t")
    case None
    with assms obtain tb where tb: "primary w t = Some tb" by auto
    with ss None show ?thesis by (simp add: copy_defs)
  next
    case (Some pcs)
    with ss show ?thesis by (simp add: copy_table_prepared)
  qed
qed


lemma try_batch_single:
  "try_batch [t] w = sync_table t (open_session Secondary (open_session Primary w)) Map.empty"
  by (simp add: try_batch_def split: prod.splits sum.splits)

lemma update_sync_tracking_fst:
  "fst (update_sync_tracking t w) =
     (case fst (secondary_table tracking_table_name w) of Inl e \<Rightarrow> Inl e | Inr cs \<Rightarrow> Inr ())"
proof (cases "fst (secondary_table tracking_table_name w)")
  case (Inl e)
  then show ?thesis by (simp add: update_sync_tracking_unloadable)
next
  case (Inr cs)
  then show ?thesis by (simp add: update_sync_tracking_loaded(1))
qed

lemma sync_table_unfold:
  "sync_table t w s =
     (case fst (copy_table t w s) of
        Inl e \<Rightarrow> (Inl e, snd (copy_table t w s))
      | Inr s2 \<Rightarrow>
         (case fst (update_sync_tracking t (snd (copy_table t w s))) of
            Inl e \<Rightarrow> (Inl e, snd (update_sync_tracking t (snd (copy_table t w s))))
          | Inr u \<Rightarrow> (Inr s2, snd (update_sync_tracking t (snd (copy_table t w s))))))"
  by (simp add: sync_table_def bind_ex_def split: prod.splits sum.splits)

lemma sync_table_failed:
  assumes "fst (sync_table t w s) = Inl e"
  shows "snd (sync_table t w s) = snd (copy_table t w s) \<and>
         (fst (copy_table t w s) = Inl e \<or>
          (\<exists>s2. fst (copy_table t w s) = Inr s2) \<and>
          fst (secondary_table tracking_table_name (snd (copy_table t w s))) = Inl e)"
proof (cases "fst (copy_table t w s)")
  case (Inl e')
  with assms show ?thesis by (simp add: sync_table_unfold)
next
  case (Inr s2)
  let ?w3 = "snd (copy_table t w s)"
  from assms Inr have u: "fst (update_sync_tracking t ?w3) = Inl e"
    by (simp add: sync_table_unfold split: sum.splits)
  then have l: "fst (secondary_table tracking_table_name ?w3) = Inl e"
    by (simp add: update_sync_tracking_fst split: sum.splits)
  then have "update_sync_tracking t ?w3 = (Inl e, ?w3)"
    by (rule update_sync_tracking_unloadable)
  with Inr l show ?thesis by (simp add: sync_table_unfold)
qed

lemma failed_run_fields:
  assumes "fst (try_batch ts w) = Inl e"
  shows "primary (snd (sync_table_changes ts w)) = primary (snd (try_batch ts w))"
    and "secondary (snd (sync_table_changes ts w)) = secondary (snd (try_batch ts w))"
    and "primary_metadata (snd (sync_table_changes ts w)) = primary_metadata (snd (try_batch ts w))"
    and "secondary_metadata (snd (sync_table_changes ts w)) =
           secondary_metadata (snd (try_batch ts w))"
  using assms by (simp_all add: sync_table_changes_snd)

lemma failure_is_stable:
  assumes f: "fst (try_batch [t] w) = Inl e"
  shows "(\<exists>e'. fst (try_batch [t] (snd (sync_table_changes [t] w))) = Inl e') \<and>
         secondary (snd (try_batch [t] (snd (sync_table_changes [t] w)))) =
           secondary (snd (sync_table_changes [t] w))"
proof -
  let ?w0 = "open_session Secondary (open_session Primary w)"
  let ?w3 = "snd (copy_table t ?w0 Map.empty)"
  let ?w1 = "snd (sync_table_changes [t] w)"
  let ?v0 = "open_session Secondary (open_session Primary ?w1)"
  from f have f': "fst (sync_table t ?w0 Map.empty) = Inl e" by (simp add: try_batch_single)
  from sync_table_failed [OF f'] have
    end3: "snd (try_batch [t] w) = ?w3" and
    how: "fst (copy_table t ?w0 Map.empty) = Inl e \<or>
          (\<exists>s2. fst (copy_table t ?w0 Map.empty) = Inr s2) \<and>
          fst (secondary_table tracking_table_name ?w3) = Inl e"
    by (simp_all add: try_batch_single)
  note flds = failed_run_fields [OF f, unfolded end3]
  have "frame ?w0 ?w3"
    by (rule frame_copy_table [of t ?w0 Map.empty "fst (copy_table t ?w0 Map.empty)"]) simp
  then have p3: "primary ?w3 = primary w" by (simp add: frame_def)
  show ?thesis
  proof (cases "primary_metadata w t = None \<and> primary w t = None")
    case True
    then have "primary_metadata ?w0 t = None" "primary ?w0 t = None" by simp_all
    from copy_table_early [OF this, of Map.empty] have
      "primary_metadata ?w3 = primary_metadata w" "secondary ?w3 = secondary w"
      by simp_all
    with flds p3 True have "primary_metadata ?v0 t = None" "primary ?v0 t = None" by simp_all
    from copy_table_early [OF this, of Map.empty] show ?thesis
      by (simp add: try_batch_single sync_table_unfold)
  next
    case False
    then have "primary_metadata ?w0 t \<noteq> None \<or> primary ?w0 t \<noteq> None" by simp
    from copy_table_reaches [OF this, of Map.empty] obtain scs pcs where
      sm: "secondary_metadata ?w3 t = Some scs" and pm: "primary_metadata ?w3 t = Some pcs" and
      c: "fst (copy_table t ?w0 Map.empty) = refill scs (primary w) (secondary ?w3) t Map.empty"
      by auto
    from sm pm flds have "secondary_metadata ?v0 t = Some scs" "primary_metadata ?v0 t = Some pcs"
      by simp_all
    from copy_table_prepared [OF this, of Map.empty] flds p3 c have
      c': "copy_table t ?v0 Map.empty = (fst (copy_table t ?w0 Map.empty), ?v0)"
      by simp
    from how show ?thesis
    proof
      assume "fst (copy_table t ?w0 Map.empty) = Inl e"
      with c' show ?thesis by (simp add: try_batch_single sync_table_unfold)
    next
      assume a: "(\<exists>s2. fst (copy_table t ?w0 Map.empty) = Inr s2) \<and>
          fst (secondary_table tracking_table_name ?w3) = Inl e"
      have "secondary ?v0 = secondary ?w3" "secondary_metadata ?v0 = secondary_metadata ?w3"
        using flds by simp_all
      then have "fst (secondary_table tracking_table_name ?v0) =
                 fst (secondary_table tracking_table_name ?w3)"
        by (simp add: secondary_table_fst cong: option.case_cong)
      with a have "fst (secondary_table tracking_table_name ?v0) = Inl e" by simp
      then have "update_sync_tracking t ?v0 = (Inl e, ?v0)"
        by (rule update_sync_tracking_unloadable)
      with a c' show ?thesis by (auto simp: try_batch_single sync_table_unfold)
    qed
  qed
qed

lemma committed_table:
  assumes "fst (try_batch ts w) = Inr s" and "t \<in> set ts" and "t \<noteq> tracking_table_name"
  shows "\<exists>src tb. primary w t = Some src \<and> secondary (snd (try_batch ts w)) t = Some tb \<and>
           secondary (snd (sync_table_changes ts w)) t =
             Some (tb\<lparr>rows := map (stored_row (cols tb)) (rows src)\<rparr>)"
proof -
  let ?w3 = "snd (try_batch ts w)"
  have "sync_tables_loop ts (open_session Secondary (open_session Primary w)) Map.empty
          = (Inr s, ?w3)"
    using assms(1) by (simp add: try_batch_def prod_eq_iff)
  from sync_tables_loop_Inr [OF this] assms(2,3) obtain src tb where
    src: "primary w t = Some src" and tb: "secondary ?w3 t = Some tb" and
    st: "s t = Some (rows tb, map (stored_row (cols tb)) (rows src))"
    by auto
  have "secondary (snd (sync_table_changes ts w)) t =
          Some (tb\<lparr>rows := map (stored_row (cols tb)) (rows src)\<rparr>)"
    using assms(1) st tb by (simp add: sync_table_changes_snd commit_session_def)
  with src tb show ?thesis by simp
qed

lemma uncommitted_elsewhere:
  assumes "fst (try_batch ts w) = Inr s" and "t \<notin> set ts"
  shows "secondary (snd (sync_table_changes ts w)) t = secondary (snd (try_batch ts w)) t"
proof -
  have "sync_tables_loop ts (open_session Secondary (open_session Primary w)) Map.empty
          = (Inr s, snd (try_batch ts w))"
    using assms(1) by (simp add: try_batch_def prod_eq_iff)
  from sync_tables_loop_Inr [OF this] assms(2) have "s t = None" by simp
  then show ?thesis using assms(1) by (simp add: sync_table_changes_snd commit_session_def)
qed

lemma missing_table_exception:
  assumes "primary w t = None"
  shows "fst (sync_table t w s) =
           Inl (if primary_metadata w t = None then NoSuchTableError t else ProgrammingError t)"
proof (cases "primary_metadata w t")
  case None
  from copy_table_early [OF None assms, of s] None show ?thesis
    by (simp add: sync_table_unfold)
next
  case ps: (Some pcs)
  show ?thesis
  proof (cases "secondary_metadata w t")
    case sn: None
    show ?thesis
    proof (cases "secondary w t")
      case None
      with assms ps sn show ?thesis
        by (simp add: sync_table_unfold copy_defs refill_def select_all_def)
    next
      case (Some a)
      with assms ps sn show ?thesis
        by (simp add: sync_table_unfold copy_defs refill_def select_all_def)
    qed
  next
    case (Some scs)
    with assms ps show ?thesis
      by (simp add: sync_table_unfold copy_table_prepared refill_def select_all_def)
  qed
qed

lemma sync_tables_loop_append:
  "sync_tables_loop (pre @ rest) w s =
     (case sync_tables_loop pre w s of
        (Inl e, w1) \<Rightarrow> (Inl e, w1)
      | (Inr s1, w1) \<Rightarrow> sync_tables_loop rest w1 s1)"
  by (induction pre arbitrary: w s) (auto split: prod.splits sum.splits)

lemma first_failure_at_missing_table:
  assumes "primary w t = None"
    and "sync_tables_loop pre (open_session Secondary (open_session Primary w)) Map.empty =
           (Inr s1, w1)"
  shows "fst (try_batch (pre @ t # post) w) =
           Inl (if primary_metadata w t = None then NoSuchTableError t else ProgrammingError t)"
proof -
  from assms(2) have "frame (open_session Secondary (open_session Primary w)) w1"
    by (rule frame_sync_tables_loop)
  with assms(1) have "primary w1 t = None" "primary_metadata w1 t = primary_metadata w t"
    by (simp_all add: frame_def)
  with missing_table_exception [of w1 t s1] have
    "fst (sync_table t w1 s1) =
       Inl (if primary_metadata w t = None then NoSuchTableError t else ProgrammingError t)"
    by simp
  then show ?thesis
    by (cases "sync_table t w1 s1") (simp add: try_batch_def sync_tables_loop_append assms(2))
qed

subsection \<open>The tracking records\<close>

lemma names_table_update [simp]:
  "names_table t (AList.update ''last_synced_at'' v r) = names_table t r"
  by (simp add: names_table_def update_conv')

lemma filter_map_stamp:
  "filter (names_table t)
     (map (\<lambda>r. if names_table t r then AList.update ''last_synced_at'' v r else r) xs) =
   map (AList.update ''last_synced_at'' v) (filter (names_table t) xs)"
  by (induction xs) auto

lemma names_one_table: "names_table t' r \<Longrightarrow> t \<noteq> t' \<Longrightarrow> \<not> names_table t r"
  by (auto simp: names_table_def)

lemma filter_map_stamp_other:
  "t \<noteq> t' \<Longrightarrow>
   filter (names_table t)
     (map (\<lambda>r. if names_table t' r then AList.update ''last_synced_at'' v r else r) xs) =
   filter (names_table t) xs"
  by (induction xs) (auto dest: names_one_table)

lemma tracking_upsert_rows:
  assumes "tracking_upsert cs db t now = Inr tb" and "db tracking_table_name = Some tb0"
  shows "cols tb = cols tb0 \<and>
         rows tb =
           (if filter (names_table t) (rows tb0) \<noteq> []
            then map (\<lambda>r. if names_table t r
                          then AList.update ''last_synced_at'' (TimeV now) r else r) (rows tb0)
            else rows tb0 @ [[(''table_name'', StrV t), (''last_synced_at'', TimeV now)]])"
  using assms by (auto simp: tracking_upsert_def split: if_splits)

lemma tracking_upsert_one_record:
  assumes "tracking_upsert cs db t now = Inr tb"
    and "db tracking_table_name = Some tb0"
    and "length (filter (names_table t) (rows tb0)) \<le> 1"
  shows "\<exists>r. filter (names_table t) (rows tb) = [r] \<and>
             map_of r ''last_synced_at'' = Some (TimeV now)"
proof (cases "filter (names_table t) (rows tb0)")
  case Nil
  with tracking_upsert_rows [OF assms(1,2)] show ?thesis by (simp add: names_table_def)
next
  case (Cons r0 rest)
  with assms(3) have one: "filter (names_table t) (rows tb0) = [r0]" by simp
  with tracking_upsert_rows [OF assms(1,2)] have rows:
    "rows tb = map (\<lambda>r. if names_table t r
                        then AList.update ''last_synced_at'' (TimeV now) r else r) (rows tb0)"
    by simp
  have "filter (names_table t) (rows tb) =
        map (AList.update ''last_synced_at'' (TimeV now)) (filter (names_table t) (rows tb0))"
    unfolding rows by (rule filter_map_stamp)
  with one show ?thesis by (simp add: update_conv')
qed

lemma tracking_upsert_others:
  assumes "tracking_upsert cs db t' now = Inr tb"
    and "db tracking_table_name = Some tb0"
    and "t \<noteq> t'"
  shows "filter (names_table t) (rows tb) = filter (names_table t) (rows tb0)"
proof (cases "filter (names_table t') (rows tb0) = []")
  case True
  with tracking_upsert_rows [OF assms(1,2)] assms(3) show ?thesis
    by (auto simp: names_table_def)
next
  case False
  with tracking_upsert_rows [OF assms(1,2)] have
    "rows tb = map (\<lambda>r. if names_table t' r
                        then AList.update ''last_synced_at'' (TimeV now) r else r) (rows tb0)"
    by simp
  then show ?thesis by (simp only: filter_map_stamp_other [OF assms(3)])
qed

lemma new_tracking_table_is_empty:
  "secondary_metadata w tracking_table_name = None \<Longrightarrow>
   fst (create_sync_tracking_table w) = Inr () \<Longrightarrow>
   tracking_records t (snd (create_sync_tracking_table w)) = []"
  by (simp add: create_sync_tracking_table_def Let_def tracking_records_def
      split: option.splits)

lemma stamp_pos_append:
  "stamp_pos e (xs @ ys) =
     (case stamp_pos e ys of
        Some n \<Rightarrow> Some (n + length (filter tracking_attempt xs))
      | None \<Rightarrow> stamp_pos e xs)"
  by (induction xs) (auto split: option.splits)

lemma stamp_pos_quiet:
  "\<forall>x \<in> set xs. \<not> tracking_attempt x \<Longrightarrow> tracking_attempt e \<Longrightarrow> stamp_pos e xs = None"
  by (induction xs) auto

lemma filter_quiet: "\<forall>x \<in> set xs. \<not> tracking_attempt x \<Longrightarrow> filter tracking_attempt xs = []"
  by (induction xs) auto

lemma quiet_refl [simp]: "quiet w w"
  by (simp add: quiet_def)

lemma quiet_trans: "quiet a b \<Longrightarrow> quiet b c \<Longrightarrow> quiet a c"
  unfolding quiet_def
  apply (elim conjE exE)
  subgoal for new1 new2
    apply (intro conjI exI [of _ "new1 @ new2"])
    apply auto
    done
  done

lemma quiet_logger: "\<not> tracking_attempt (l, m) \<Longrightarrow> quiet w (logger l m w)"
  by (simp add: quiet_def tracking_records_def)

lemma quiet_sessions [simp]:
  "quiet w (open_session sd w)" "quiet w (close_session sd w)"
  by (simp_all add: quiet_def tracking_records_def)

lemma quiet_primary_table: "primary_table t w = (r, w') \<Longrightarrow> quiet w w'"
  by (cases r) (auto simp: quiet_def tracking_records_def dest!: primary_table_Inl primary_table_Inr)

lemma quiet_secondary_table: "secondary_table t w = (r, w') \<Longrightarrow> quiet w w'"
  by (cases r)
    (auto simp: quiet_def tracking_records_def dest!: secondary_table_Inl secondary_table_Inr)

lemma tracking_records_create_all:
  "secondary w' = create_all md (secondary w) \<Longrightarrow> tracking_records t w' = tracking_records t w"
  by (simp add: tracking_records_def create_all_def split: option.splits)

lemma quiet_create_table_if_not_exists:
  "create_table_if_not_exists t w = (r, w') \<Longrightarrow> quiet w w'"
proof (cases "secondary_metadata w t")
  case None
  assume c: "create_table_if_not_exists t w = (r, w')"
  obtain r1 w1 where p: "primary_table t (logger INFO (Creating_table t) w) = (r1, w1)"
    by (cases "primary_table t (logger INFO (Creating_table t) w)")
  have q0: "quiet w (logger INFO (Creating_table t) w)"
    by (rule quiet_logger) (simp add: tracking_attempt_def)
  from p have q1: "quiet (logger INFO (Creating_table t) w) w1" by (rule quiet_primary_table)
  show ?thesis
  proof (cases r1)
    case (Inl e)
    with c p None have "w' = w1" by (simp add: create_table_if_not_exists_def bind_ex_def)
    with q0 q1 show ?thesis by (auto intro: quiet_trans)
  next
    case (Inr cs)
    let ?w2 = "w1\<lparr>secondary := create_all (primary_metadata w1) (secondary w1)\<rparr>"
    from c p None Inr have w': "w' = logger INFO (Table_created t) ?w2"
      by (simp add: create_table_if_not_exists_def bind_ex_def)
    have "quiet w1 ?w2"
      by (simp add: quiet_def tracking_records_create_all [of ?w2 _ w1])
    moreover have "quiet ?w2 (logger INFO (Table_created t) ?w2)"
      by (rule quiet_logger) (simp add: tracking_attempt_def)
    ultimately show ?thesis using q0 q1 w' by (auto intro: quiet_trans)
  qed
next
  case (Some cs)
  assume "create_table_if_not_exists t w = (r, w')"
  with Some show ?thesis by (simp add: create_table_if_not_exists_def)
qed

lemma quiet_copy_table: "quiet w (snd (copy_table t w s))"
proof -
  obtain r1 w1 where c: "create_table_if_not_exists t w = (r1, w1)"
    by (cases "create_table_if_not_exists t w")
  obtain r2 w2 where p: "primary_table t w1 = (r2, w2)" by (cases "primary_table t w1")
  obtain r3 w3 where sc: "secondary_table t w2 = (r3, w3)" by (cases "secondary_table t w2")
  have q1: "quiet w w1" using c by (rule quiet_create_table_if_not_exists)
  have q2: "quiet w w2" using q1 quiet_primary_table [OF p] by (rule quiet_trans)
  have q3: "quiet w w3" using q2 quiet_secondary_table [OF sc] by (rule quiet_trans)
  have "snd (copy_table t w s) = w1 \<or> snd (copy_table t w s) = w2 \<or>
        snd (copy_table t w s) = w3"
    by (simp add: copy_table_alt bind_ex_def c p sc split: sum.splits)
  with q1 q2 q3 show ?thesis by auto
qed

lemma quiet_tracked: "quiet w w' \<Longrightarrow> tracked t w w'"
  unfolding quiet_def tracked_def
  by (auto simp: filter_quiet stamp_pos_quiet tracking_attempt_def)

lemma tracked_trans:
  assumes "tracked t a b" and "tracked t b c"
  shows "tracked t a c"
proof -
  let ?X = "(INFO, Tracking_updated t)"
  let ?n = "\<lambda>new. length (filter tracking_attempt new)"
  from assms(1) obtain new1 where
    u1: "utc_clock b = utc_clock a" and l1: "log b = log a @ new1" and
    c1: "clock_reads b = clock_reads a + ?n new1" and
    r1: "length (tracking_records t a) \<le> 1 \<Longrightarrow>
           length (tracking_records t b) \<le> 1 \<and>
           (case stamp_pos ?X new1 of
              None \<Rightarrow> tracking_records t b = tracking_records t a
            | Some n \<Rightarrow>
               (\<exists>r. tracking_records t b = [r] \<and>
                    map_of r ''last_synced_at'' =
                      Some (TimeV (utc_clock a (clock_reads a + n)))))"
    unfolding tracked_def by blast
  from assms(2) obtain new2 where
    u2: "utc_clock c = utc_clock b" and l2: "log c = log b @ new2" and
    c2: "clock_reads c = clock_reads b + ?n new2" and
    r2: "length (tracking_records t b) \<le> 1 \<Longrightarrow>
           length (tracking_records t c) \<le> 1 \<and>
           (case stamp_pos ?X new2 of
              None \<Rightarrow> tracking_records t c = tracking_records t b
            | Some n \<Rightarrow>
               (\<exists>r. tracking_records t c = [r] \<and>
                    map_of r ''last_synced_at'' =
                      Some (TimeV (utc_clock b (clock_reads b + n)))))"
    unfolding tracked_def by blast
  have rec: "length (tracking_records t c) \<le> 1 \<and>
           (case stamp_pos ?X (new1 @ new2) of
              None \<Rightarrow> tracking_records t c = tracking_records t a
            | Some n \<Rightarrow>
               (\<exists>r. tracking_records t c = [r] \<and>
                    map_of r ''last_synced_at'' =
                      Some (TimeV (utc_clock a (clock_reads a + n)))))"
    if le: "length (tracking_records t a) \<le> 1"
  proof -
    note b = r1 [OF le]
    then have "length (tracking_records t b) \<le> 1" by simp
    note c = r2 [OF this]
    show ?thesis
    proof (cases "stamp_pos ?X new2")
      case None
      with b c show ?thesis by (auto simp: stamp_pos_append split: option.splits)
    next
      case (Some n)
      with c u1 c1 show ?thesis by (simp add: stamp_pos_append ac_simps)
    qed
  qed
  show ?thesis
    unfolding tracked_def
    using u1 u2 l1 l2 c1 c2 rec
    by (intro conjI exI [of _ "new1 @ new2"]) simp_all
qed

lemma tracked_update_sync_tracking: "tracked t w (snd (update_sync_tracking t' w))"
proof (cases "fst (secondary_table tracking_table_name w)")
  case (Inl e)
  then show ?thesis by (simp add: update_sync_tracking_unloadable quiet_tracked)
next
  case (Inr cs)
  let ?w' = "snd (update_sync_tracking t' w)"
  let ?res = "tracking_upsert cs (secondary w) t' (utc_clock w (clock_reads w))"
  let ?entry = "case ?res of Inr tb \<Rightarrow> (INFO, Tracking_updated t')
                | Inl e \<Rightarrow> (ERROR, Tracking_update_failed t' e)"
  note upd = update_sync_tracking_loaded [OF Inr, of t']
  have att: "tracking_attempt ?entry"
    by (simp add: tracking_attempt_def split: sum.splits)
  have rec: "length (tracking_records t ?w') \<le> 1 \<and>
           (case stamp_pos (INFO, Tracking_updated t) [?entry] of
              None \<Rightarrow> tracking_records t ?w' = tracking_records t w
            | Some n \<Rightarrow>
               (\<exists>r. tracking_records t ?w' = [r] \<and>
                    map_of r ''last_synced_at'' =
                      Some (TimeV (utc_clock w (clock_reads w + n)))))"
    if le: "length (tracking_records t w) \<le> 1"
  proof (cases ?res)
    case (Inl e)
    with upd(5) le show ?thesis by (simp add: tracking_records_def)
  next
    case r: (Inr tb)
    from tracking_upsert_Inr [OF r] obtain tb0 where
      tb0: "secondary w tracking_table_name = Some tb0" by auto
    from r upd(5) have new: "tracking_records t ?w' = filter (names_table t) (rows tb)"
      by (simp add: tracking_records_def)
    from tb0 have old: "tracking_records t w = filter (names_table t) (rows tb0)"
      by (simp add: tracking_records_def)
    show ?thesis
    proof (cases "t = t'")
      case True
      from le old have "length (filter (names_table t') (rows tb0)) \<le> 1" using True by simp
      from tracking_upsert_one_record [OF r tb0 this] r new True show ?thesis by auto
    next
      case False
      from tracking_upsert_others [OF r tb0 False] r new old le False show ?thesis by simp
    qed
  qed
  show ?thesis
    unfolding tracked_def
    using upd(6,7,8) att rec
    by (intro conjI exI [of _ "[?entry]"]) simp_all
qed

lemma tracked_sync_table: "tracked t w (snd (sync_table t' w s))"
proof -
  let ?w3 = "snd (copy_table t' w s)"
  have a: "tracked t w ?w3" using quiet_copy_table by (rule quiet_tracked)
  have b: "tracked t ?w3 (snd (update_sync_tracking t' ?w3))"
    by (rule tracked_update_sync_tracking)
  have "snd (sync_table t' w s) = ?w3 \<or>
        snd (sync_table t' w s) = snd (update_sync_tracking t' ?w3)"
    by (simp add: sync_table_unfold split: sum.splits)
  with a tracked_trans [OF a b] show ?thesis by auto
qed

lemma tracked_sync_tables_loop: "tracked t w (snd (sync_tables_loop ts w s))"
proof (induction ts arbitrary: w s)
  case Nil
  show ?case by (simp add: quiet_tracked)
next
  case (Cons t' ts)
  obtain r w1 where st: "sync_table t' w s = (r, w1)" by (cases "sync_table t' w s")
  with tracked_sync_table [of t w t' s] have a: "tracked t w w1" by simp
  show ?case
  proof (cases r)
    case (Inl e)
    with st a show ?thesis by simp
  next
    case (Inr s1)
    with st tracked_trans [OF a Cons.IH [of w1 s1]] show ?thesis by simp
  qed
qed

lemma final_log:
  "log (snd (sync_table_changes ts w)) =
     log (snd (try_batch ts w)) @
       [case fst (try_batch ts w) of
          Inr s \<Rightarrow> (INFO, Synchronized ts)
        | Inl e \<Rightarrow> (ERROR, Sync_failed ts e)]"
  by (simp add: sync_table_changes_snd split: sum.splits)

lemma quiet_finish:
  assumes "tracking_table_name \<notin> set ts"
  shows "quiet (snd (try_batch ts w)) (snd (sync_table_changes ts w))"
proof -
  have "tracking_records t (snd (sync_table_changes ts w)) =
        tracking_records t (snd (try_batch ts w))" for t
  proof (cases "fst (try_batch ts w)")
    case (Inl e)
    then show ?thesis by (simp add: sync_table_changes_snd tracking_records_def)
  next
    case (Inr s)
    from uncommitted_elsewhere [OF Inr assms] show ?thesis by (simp add: tracking_records_def)
  qed
  moreover have "clock_reads (snd (sync_table_changes ts w)) = clock_reads (snd (try_batch ts w))"
    "utc_clock (snd (sync_table_changes ts w)) = utc_clock (snd (try_batch ts w))"
    by (simp_all add: sync_table_changes_snd split: sum.splits)
  ultimately show ?thesis
    unfolding quiet_def
    by (auto simp: final_log tracking_attempt_def split: sum.splits)
qed

lemma tracked_batch:
  assumes "tracking_table_name \<notin> set ts"
  shows "tracked t w (snd (sync_table_changes ts w))"
proof -
  let ?w0 = "open_session Secondary (open_session Primary w)"
  have "quiet w ?w0" by (auto intro: quiet_trans [of w "open_session Primary w"])
  then have "tracked t w ?w0" by (rule quiet_tracked)
  moreover have "tracked t ?w0 (snd (try_batch ts w))"
    unfolding try_batch_def by (rule tracked_sync_tables_loop)
  moreover have "tracked t (snd (try_batch ts w)) (snd (sync_table_changes ts w))"
    using quiet_finish [OF assms] by (rule quiet_tracked)
  ultimately show ?thesis by (blast intro: tracked_trans)
qed

subsection \<open>The bootstrap\<close>

lemma report_tables_fields [simp]:
  "secondary (report_tables ts w) = secondary w"
  "primary (report_tables ts w) = primary w"
  by (induction ts arbitrary: w) auto

lemma reflect_Some: "db t = Some tb \<Longrightarrow> \<exists>cs. reflect md db t = Some cs"
  by (cases "md t") (simp_all add: reflect_def)

lemma sync_table_changes_fst: "fst (sync_table_changes ts w) = Inr ()"
  by (simp add: sync_table_changes_def Let_def)

lemma main_program_unfold:
  "main_program ts w =
     bind_ex (bootstrap_check w) (\<lambda>first w4.
     bind_ex (if first
              then sync_table_changes ts (logger INFO First_run_detected w4)
              else (Inr (), logger INFO Not_first_run w4)) (\<lambda>u w5.
       (Inr (), logger INFO Setup_complete (report_tables ts w5))))"
  by (simp add: main_program_def bootstrap_check_def Let_def bind_ex_def
      split: prod.splits sum.splits)

lemma bootstrap_check_result:
  "fst (bootstrap_check w) =
     Inr (case secondary w tracking_table_name of Some tb \<Rightarrow> rows tb = [] | None \<Rightarrow> True) \<and>
   primary (snd (bootstrap_check w)) = primary w \<and>
   (\<forall>t. t \<noteq> tracking_table_name \<longrightarrow>
      secondary (snd (bootstrap_check w)) t = secondary w t) \<and>
   (secondary w tracking_table_name \<noteq> None \<longrightarrow>
      secondary (snd (bootstrap_check w)) = secondary w)"
proof (cases "secondary w tracking_table_name")
  case None
  show ?thesis
  proof (cases "secondary_metadata w tracking_table_name")
    case n: None
    with None show ?thesis
      by (simp add: bootstrap_check_def Let_def reflect_def create_sync_tracking_table_def
          bind_ex_def is_first_run_def secondary_table_def load_table_def select_all_def)
  next
    case (Some cs)
    with None show ?thesis
      by (simp add: bootstrap_check_def Let_def reflect_def create_sync_tracking_table_def
          bind_ex_def is_first_run_def secondary_table_def load_table_def select_all_def)
  qed
next
  case (Some tb)
  from reflect_Some [of "secondary w" tracking_table_name tb "secondary_metadata w"] Some
  obtain cs where
    "reflect (secondary_metadata w) (secondary w) tracking_table_name = Some cs" by auto
  with Some show ?thesis
    by (simp add: bootstrap_check_def Let_def create_sync_tracking_table_def
        bind_ex_def is_first_run_def secondary_table_def load_table_def select_all_def)
qed

subsection \<open>First-run detection\<close>

lemma is_first_run_when_table_loads:
  assumes "fst (secondary_table tracking_table_name w) = Inr cs"
  shows "fst (is_first_run w) =
           Inr (case secondary w tracking_table_name of None \<Rightarrow> True | Some tb \<Rightarrow> rows tb = [])"
proof -
  obtain w1 where l: "secondary_table tracking_table_name w = (Inr cs, w1)"
    using assms by (cases "secondary_table tracking_table_name w") auto
  from secondary_table_Inr [OF l] have "secondary w1 = secondary w" by auto
  then show ?thesis
    by (simp add: is_first_run_def bind_ex_def l Let_def select_all_def split: option.splits)
qed

subsection \<open>Evaluating the model on the example states\<close>

lemmas model_defs =
  try_batch_def sync_table_changes_def sync_table_def copy_table_def
  create_table_if_not_exists_def
  update_sync_tracking_def tracking_upsert_def primary_table_def secondary_table_def
  load_table_def select_all_def exec_delete_def exec_insert_def commit_session_def
  create_all_def bind_ex_def utcnow_def tracking_table_name_def tracking_columns_def
  names_table_def is_first_run_def create_sync_tracking_table_def main_program_def
  reflect_def stored_row_def Let_def

lemma missing_table_fails_batch:
  "fst (try_batch [''example_table'', ''another_table''] mirrored_world) =
     Inl (NoSuchTableError ''another_table'')"
  by (simp add: mirrored_world_def example_rows_def model_defs)

lemma example_table_batch_succeeds:
  "\<exists>s. fst (try_batch [''example_table''] mirrored_world) = Inr s"
  by (simp add: mirrored_world_def example_rows_def model_defs)

lemma failed_tracking_batch_still_commits:
  "secondary (snd (sync_table_changes [''example_table'', ''another_table''] untracked_world))
     ''example_table'' = Some \<lparr>cols = [''id'', ''name''], rows = example_rows\<rparr> \<and>
   secondary (snd (sync_table_changes [''example_table'', ''another_table''] untracked_world))
     ''another_table'' = Some \<lparr>cols = [''id''], rows = [[(''id'', IntV 7)]]\<rparr> \<and>
   secondary (snd (sync_table_changes [''example_table'', ''another_table''] untracked_world))
     ''sync_tracking'' = None \<and>
   filter (\<lambda>(l, m). l = ERROR)
     (log (snd (sync_table_changes [''example_table'', ''another_table''] untracked_world))) =
     [(ERROR, Tracking_update_failed ''example_table'' (ProgrammingError ''sync_tracking'')),
      (ERROR, Tracking_update_failed ''another_table'' (ProgrammingError ''sync_tracking''))]"
  by (simp add: untracked_world_def example_rows_def model_defs)

lemma unloadable_tracking_aborts_batch:
  "fst (try_batch [''example_table''] unprepared_world) = Inl (NoSuchTableError ''sync_tracking'')"
  by (simp add: unprepared_world_def mirrored_world_def example_rows_def model_defs)

lemma example_table_synchronized:
  "secondary (snd (sync_table_changes [''example_table''] mirrored_world)) ''example_table'' =
     Some \<lparr>cols = [''id'', ''name''], rows = example_rows\<rparr>"
  by (simp add: mirrored_world_def example_rows_def model_defs)

lemma first_bootstrap_synchronizes:
  "secondary (snd (main_program [''example_table''] unprepared_world)) ''example_table'' =
     Some \<lparr>cols = [''id'', ''name''], rows = example_rows\<rparr> \<and>
   secondary (snd (main_program [''example_table''] unprepared_world)) ''sync_tracking'' =
     Some \<lparr>cols = tracking_columns,
           rows = [[(''table_name'', StrV ''example_table''), (''last_synced_at'', TimeV 1000)]]\<rparr>"
  by (simp add: unprepared_world_def mirrored_world_def example_rows_def model_defs)

lemma copied_world_eval:
  "copy_table ''example_table''
     (open_session Secondary (open_session Primary untracked_world)) Map.empty =
     (Inr [''example_table'' \<mapsto> ([], example_rows)], copied_world)"
  unfolding copied_world_def
  by (simp add: prod_eq_iff untracked_world_def example_rows_def model_defs)

lemma copied_world_fields:
  "secondary_metadata copied_world ''sync_tracking'' = Some tracking_columns"
  "secondary copied_world ''sync_tracking'' = None"
  unfolding copied_world_def
  by (simp_all add: untracked_world_def example_rows_def model_defs)

subsection \<open>A tracking update whose upsert fails\<close>

text \<open>
  When the \<^verbatim>\<open>Table\<close> object of the tracking table is there and the upsert raises,
  \<^verbatim>\<open>update_sync_tracking\<close> returns normally, the destination database is as before the
  call, the last line of the log is the error, and the loop of \<^verbatim>\<open>sync_table_changes\<close>
  goes on: the iteration whose copy ended in the state \<open>w\<close> keeps its uncommitted rows and
  is followed by the remaining tables.
\<close>

lemma tracking_failure_is_contained:
  assumes "fst (secondary_table tracking_table_name w) = Inr cs"
    and "tracking_upsert cs (secondary w) table_name (utc_clock w (clock_reads w)) = Inl e"
  shows "fst (update_sync_tracking table_name w) = Inr () \<and>
         secondary (snd (update_sync_tracking table_name w)) = secondary w \<and>
         last (log (snd (update_sync_tracking table_name w))) =
           (ERROR, Tracking_update_failed table_name e) \<and>
         (\<forall>w0 s0 s2 rest. copy_table table_name w0 s0 = (Inr s2, w) \<longrightarrow>
            sync_tables_loop (table_name # rest) w0 s0 =
              sync_tables_loop rest (snd (update_sync_tracking table_name w)) s2)"
proof -
  obtain w1 where l: "secondary_table tracking_table_name w = (Inr cs, w1)"
    using assms(1) by (cases "secondary_table tracking_table_name w") auto
  from secondary_table_Inr [OF l] have
    w1: "secondary w1 = secondary w" "utc_clock w1 = utc_clock w" "clock_reads w1 = clock_reads w"
    by auto
  have u: "update_sync_tracking table_name w =
             (Inr (), close_session Secondary
                (logger ERROR (Tracking_update_failed table_name e)
                   ((open_session Secondary w1)\<lparr>clock_reads := Suc (clock_reads w)\<rparr>)))"
    using assms(2) w1
    by (simp add: update_sync_tracking_def bind_ex_def l Let_def utcnow_def)
  show ?thesis
    by (simp add: u w1 sync_table_def bind_ex_def)
qed

text \<open>
  An instance: the tracking table is gone from the destination, the update for
  \<^verbatim>\<open>example_table\<close> fails, and the loop goes on with \<^verbatim>\<open>another_table\<close>; lemma
  \<open>failed_tracking_batch_still_commits\<close> shows the end of that batch.
\<close>

lemma tracking_failure_is_contained_example:
  "fst (secondary_table tracking_table_name copied_world) = Inr tracking_columns \<and>
   tracking_upsert tracking_columns (secondary copied_world) ''example_table''
     (utc_clock copied_world (clock_reads copied_world)) =
     Inl (ProgrammingError tracking_table_name) \<and>
   fst (update_sync_tracking ''example_table'' copied_world) = Inr () \<and>
   secondary (snd (update_sync_tracking ''example_table'' copied_world)) =
     secondary copied_world \<and>
   sync_tables_loop [''example_table'', ''another_table'']
     (open_session Secondary (open_session Primary untracked_world)) Map.empty =
   sync_tables_loop [''another_table'']
     (snd (update_sync_tracking ''example_table'' copied_world))
     [''example_table'' \<mapsto> ([], example_rows)]"
proof -
  have a: "fst (secondary_table tracking_table_name copied_world) = Inr tracking_columns"
    by (simp add: secondary_table_fst copied_world_fields tracking_table_name_def)
  have b: "tracking_upsert tracking_columns (secondary copied_world) ''example_table''
     (utc_clock copied_world (clock_reads copied_world)) =
     Inl (ProgrammingError tracking_table_name)"
    by (simp add: tracking_upsert_def copied_world_fields tracking_table_name_def
        tracking_columns_def)
  from tracking_failure_is_contained [OF a b] a b copied_world_eval show ?thesis by simp
qed

section \<open>The claims\<close>

subsection \<open>C1: what a failed batch leaves behind\<close>

text \<open>
  C1, as the code has it. The data tables of the destination are written in the one
  session of \<^verbatim>\<open>sync_table_changes\<close>: up to the end of the loop no table other than the
  tracking table has lost or changed a row (tables may have been created, empty). An error
  anywhere in the loop rolls that session back, so the destination is what the loop left
  committed and every data table is as before the batch; without an error the session
  commits once, after the last table. The tracking update of each table is committed by
  \<^verbatim>\<open>update_sync_tracking\<close> in a session of its own and is part of what the loop left
  committed: the rollback does not undo it.
\<close>

theorem batch_rollback_keeps_data:
  "data_kept (secondary w) (secondary (snd (try_batch table_names w))) \<and>
   (\<forall>e. fst (try_batch table_names w) = Inl e \<longrightarrow>
      secondary (snd (sync_table_changes table_names w)) =
        secondary (snd (try_batch table_names w)) \<and>
      data_kept (secondary w) (secondary (snd (sync_table_changes table_names w)))) \<and>
   (\<forall>s. fst (try_batch table_names w) = Inr s \<longrightarrow>
      secondary (snd (sync_table_changes table_names w)) =
        commit_session s (secondary (snd (try_batch table_names w))))"
  by (simp add: sync_table_changes_snd frame_try_batch)

text \<open>
  An instance: the batch of \<^verbatim>\<open>example_table\<close> and the missing \<^verbatim>\<open>another_table\<close> fails, and
  \<^verbatim>\<open>example_table\<close> keeps its outdated row.
\<close>

theorem batch_rollback_keeps_data_witness:
  "fst (try_batch [''example_table'', ''another_table''] mirrored_world) =
     Inl (NoSuchTableError ''another_table'') \<and>
   secondary (snd (sync_table_changes [''example_table'', ''another_table''] mirrored_world))
     ''example_table'' =
   Some \<lparr>cols = [''id'', ''name''], rows = [[(''id'', IntV 9), (''name'', StrV ''old'')]]\<rparr>"
proof -
  let ?ts = "[''example_table'', ''another_table'']"
  have "data_kept (secondary mirrored_world)
          (secondary (snd (sync_table_changes ?ts mirrored_world)))"
    using batch_rollback_keeps_data [of mirrored_world ?ts] missing_table_fails_batch
    by simp
  then have "case secondary mirrored_world ''example_table'' of
               Some tb \<Rightarrow>
                 secondary (snd (sync_table_changes ?ts mirrored_world)) ''example_table'' =
                   Some tb
             | None \<Rightarrow> True"
    unfolding data_kept_def
    by (auto simp: tracking_table_name_def split: option.splits
        dest: spec [of _ "''example_table''"])
  then show ?thesis
    using missing_table_fails_batch by (simp add: mirrored_world_def)
qed

text \<open>
  Against C1 as stated: in that failed batch the tracking table, empty before, has
  received the record of \<^verbatim>\<open>example_table\<close>, whose rows were rolled back.
\<close>

theorem tracking_survives_rollback_counterexample:
  "fst (try_batch [''example_table'', ''another_table''] mirrored_world) =
     Inl (NoSuchTableError ''another_table'') \<and>
   secondary mirrored_world ''sync_tracking'' = Some \<lparr>cols = tracking_columns, rows = []\<rparr> \<and>
   secondary (snd (sync_table_changes [''example_table'', ''another_table''] mirrored_world))
     ''sync_tracking'' =
   Some \<lparr>cols = tracking_columns,
         rows = [[(''table_name'', StrV ''example_table''), (''last_synced_at'', TimeV 1000)]]\<rparr>"
  by (simp add: mirrored_world_def example_rows_def model_defs)

subsection \<open>C9: sessions\<close>

text \<open>
  C9. Each of \<^verbatim>\<open>is_first_run\<close>, \<^verbatim>\<open>update_sync_tracking\<close> and \<^verbatim>\<open>sync_table_changes\<close>
  leaves the open sessions as it found them, whether it returns or raises: every session
  it opened is closed. While the loop of \<^verbatim>\<open>sync_table_changes\<close> runs, one session per side
  is open.
\<close>

theorem sessions_released:
  "open_sessions (snd (is_first_run w)) = open_sessions w \<and>
   open_sessions (snd (update_sync_tracking table_name w)) = open_sessions w \<and>
   open_sessions (snd (try_batch table_names w)) = Secondary # Primary # open_sessions w \<and>
   open_sessions (snd (sync_table_changes table_names w)) = open_sessions w"
proof (intro conjI)
  show "open_sessions (snd (is_first_run w)) = open_sessions w"
    by (auto simp: is_first_run_def bind_ex_def Let_def split: prod.splits sum.splits
        dest!: secondary_table_Inl secondary_table_Inr)
  have "frame w (snd (update_sync_tracking table_name w))"
    by (rule frame_update_sync_tracking
          [of table_name w "fst (update_sync_tracking table_name w)"]) simp
  then show "open_sessions (snd (update_sync_tracking table_name w)) = open_sessions w"
    by (simp add: frame_def)
  show "open_sessions (snd (try_batch table_names w)) = Secondary # Primary # open_sessions w"
    by (simp add: frame_try_batch)
  show "open_sessions (snd (sync_table_changes table_names w)) = open_sessions w"
    by (simp add: sync_table_changes_snd frame_try_batch split: sum.splits)
qed

theorem sessions_released_witness:
  "open_sessions (snd (sync_table_changes [''example_table'', ''another_table''] mirrored_world))
     = [] \<and>
   open_sessions (snd (update_sync_tracking ''example_table'' mirrored_world)) = [] \<and>
   open_sessions (snd (is_first_run mirrored_world)) = []"
  using sessions_released
    [of mirrored_world "''example_table''" "[''example_table'', ''another_table'']"]
  by (simp add: mirrored_world_def)

subsection \<open>C10: no exception leaves the synchronizer\<close>

text \<open>
  C10. For every list of table names and every state, \<^verbatim>\<open>sync_table_changes\<close> returns
  normally, with the one value it ever returns. When its \<^verbatim>\<open>try\<close> block raised, the
  exception became one error line in the log and the session was rolled back: the
  destination is what was committed when the exception was raised.
\<close>

theorem sync_table_changes_never_raises:
  "fst (sync_table_changes table_names w) = Inr () \<and>
   (\<forall>e. fst (try_batch table_names w) = Inl e \<longrightarrow>
      log (snd (sync_table_changes table_names w)) =
        log (snd (try_batch table_names w)) @ [(ERROR, Sync_failed table_names e)] \<and>
      secondary (snd (sync_table_changes table_names w)) =
        secondary (snd (try_batch table_names w)))"
  by (simp add: sync_table_changes_snd) (simp add: sync_table_changes_def)

theorem sync_table_changes_never_raises_witness:
  "fst (try_batch [''example_table'', ''another_table''] mirrored_world) =
     Inl (NoSuchTableError ''another_table'') \<and>
   fst (sync_table_changes [''example_table'', ''another_table''] mirrored_world) = Inr () \<and>
   log (snd (sync_table_changes [''example_table'', ''another_table''] mirrored_world)) =
     log (snd (try_batch [''example_table'', ''another_table''] mirrored_world)) @
     [(ERROR, Sync_failed [''example_table'', ''another_table'']
                (NoSuchTableError ''another_table''))]"
  using sync_table_changes_never_raises
    [of "[''example_table'', ''another_table'']" mirrored_world]
    missing_table_fails_batch
  by simp

subsection \<open>C2: a synchronized table holds the source rows\<close>




subsection \<open>C7: a table missing from the source\<close>

text \<open>
  C7, as the code has it. When a requested table is not in the source database, the
  \<^verbatim>\<open>try\<close> block of \<^verbatim>\<open>sync_table_changes\<close> raises; the exception is caught, so the call
  returns normally, the last line of the log is the error, carrying the list of requested
  tables and the exception, and the whole batch is rolled back: every data table of the
  destination is as before the call, so no requested table has been synchronized. When the
  missing table is the first of the batch to fail (the loop gets through the tables listed
  before it), the exception logged names it: it is the \<^verbatim>\<open>NoSuchTableError\<close> of its
  reflection or, when the primary metadata still hold the table, the
  \<^verbatim>\<open>ProgrammingError\<close> of its select.
\<close>

theorem missing_source_table_aborts_batch:
  assumes "t \<in> set table_names" and "primary w t = None"
  shows "\<exists>e. fst (try_batch table_names w) = Inl e \<and>
           fst (sync_table_changes table_names w) = Inr () \<and>
           last (log (snd (sync_table_changes table_names w))) =
             (ERROR, Sync_failed table_names e) \<and>
           data_kept (secondary w) (secondary (snd (sync_table_changes table_names w))) \<and>
           (\<forall>pre post s1 w1.
              table_names = pre @ t # post \<and>
              sync_tables_loop pre (open_session Secondary (open_session Primary w)) Map.empty =
                (Inr s1, w1) \<longrightarrow>
              e = (if primary_metadata w t = None then NoSuchTableError t
                   else ProgrammingError t))"
proof (cases "fst (try_batch table_names w)")
  case (Inr s)
  then have "sync_tables_loop table_names (open_session Secondary (open_session Primary w))
               Map.empty = (Inr s, snd (try_batch table_names w))"
    by (simp add: try_batch_def prod_eq_iff)
  from sync_tables_loop_Inr [OF this] assms show ?thesis by auto
next
  case (Inl e)
  have "e = (if primary_metadata w t = None then NoSuchTableError t else ProgrammingError t)"
    if "table_names = pre @ t # post"
      and "sync_tables_loop pre (open_session Secondary (open_session Primary w)) Map.empty =
             (Inr s1, w1)"
    for pre post s1 w1
    using first_failure_at_missing_table [OF assms(2) that(2), of post] that(1) Inl by simp
  then have first:
    "\<forall>pre post s1 w1.
       table_names = pre @ t # post \<and>
       sync_tables_loop pre (open_session Secondary (open_session Primary w)) Map.empty =
         (Inr s1, w1) \<longrightarrow>
       e = (if primary_metadata w t = None then NoSuchTableError t else ProgrammingError t)"
    by blast
  have "fst (sync_table_changes table_names w) = Inr ()"
    by (simp add: sync_table_changes_def Let_def)
  moreover have "last (log (snd (sync_table_changes table_names w))) =
                   (ERROR, Sync_failed table_names e)"
    using Inl by (simp add: sync_table_changes_snd)
  moreover have "data_kept (secondary w) (secondary (snd (sync_table_changes table_names w)))"
    using Inl by (simp add: sync_table_changes_snd frame_try_batch)
  ultimately show ?thesis using Inl first by blast
qed

text \<open>
  An instance, on the list of the program: \<^verbatim>\<open>example_table\<close> is copied, \<^verbatim>\<open>another_table\<close>
  is missing from the source, and the error logged is its \<^verbatim>\<open>NoSuchTableError\<close>.
\<close>

theorem missing_source_table_aborts_batch_witness:
  "''another_table'' \<in> set [''example_table'', ''another_table''] \<and>
   primary mirrored_world ''another_table'' = None \<and>
   fst (sync_table_changes [''example_table'', ''another_table''] mirrored_world) = Inr () \<and>
   last (log (snd (sync_table_changes [''example_table'', ''another_table''] mirrored_world))) =
     (ERROR, Sync_failed [''example_table'', ''another_table'']
               (NoSuchTableError ''another_table'')) \<and>
   data_kept (secondary mirrored_world)
     (secondary (snd (sync_table_changes [''example_table'', ''another_table'']
                        mirrored_world)))"
proof -
  let ?ts = "[''example_table'', ''another_table'']"
  let ?w0 = "open_session Secondary (open_session Primary mirrored_world)"
  have a: "primary mirrored_world ''another_table'' = None"
    and m: "primary_metadata mirrored_world ''another_table'' = None"
    by (simp_all add: mirrored_world_def)
  obtain s1 where "fst (sync_tables_loop [''example_table''] ?w0 Map.empty) = Inr s1"
    using example_table_batch_succeeds by (auto simp: try_batch_def)
  then have l: "sync_tables_loop [''example_table''] ?w0 Map.empty =
                  (Inr s1, snd (sync_tables_loop [''example_table''] ?w0 Map.empty))"
    by (simp add: prod_eq_iff)
  from missing_source_table_aborts_batch [of "''another_table''" ?ts mirrored_world, OF _ a]
  obtain e where
    e: "fst (sync_table_changes ?ts mirrored_world) = Inr ()"
       "last (log (snd (sync_table_changes ?ts mirrored_world))) = (ERROR, Sync_failed ?ts e)"
       "data_kept (secondary mirrored_world)
          (secondary (snd (sync_table_changes ?ts mirrored_world)))" and
    first: "\<forall>pre post s1 w1.
              ?ts = pre @ ''another_table'' # post \<and>
              sync_tables_loop pre ?w0 Map.empty = (Inr s1, w1) \<longrightarrow>
              e = (if primary_metadata mirrored_world ''another_table'' = None
                   then NoSuchTableError ''another_table''
                   else ProgrammingError ''another_table'')"
    by auto
  have ts: "?ts = [''example_table''] @ ''another_table'' # []" by simp
  from first ts l have
    "e = (if primary_metadata mirrored_world ''another_table'' = None
          then NoSuchTableError ''another_table''
          else ProgrammingError ''another_table'')"
    by blast
  with m have "e = NoSuchTableError ''another_table''" by simp
  with e a show ?thesis by simp
qed

text \<open>
  Against C7 as stated: \<^verbatim>\<open>example_table\<close> is in the source, with two rows, and is
  requested together with the missing \<^verbatim>\<open>another_table\<close>; after the call the destination
  still holds its one outdated row.
\<close>

theorem other_tables_not_synchronized_counterexample:
  "primary mirrored_world ''another_table'' = None \<and>
   primary mirrored_world ''example_table'' =
     Some \<lparr>cols = [''id'', ''name''], rows = example_rows\<rparr> \<and>
   secondary (snd (sync_table_changes [''another_table'', ''example_table''] mirrored_world))
     ''example_table'' =
   Some \<lparr>cols = [''id'', ''name''], rows = [[(''id'', IntV 9), (''name'', StrV ''old'')]]\<rparr>"
  by (simp add: mirrored_world_def example_rows_def model_defs)

subsection \<open>C3: when the bootstrap synchronizes\<close>

text \<open>
  C3, as the code has it. The bootstrap never raises, and it calls the synchronizer in the
  first-run branch only. Its first-run check, which changes no data table, says ``first
  run'' exactly when the destination has no tracking table or an empty one. When it says
  ``not the first run'', the program returns without having changed anything in the
  destination: the branch only logs. When it says ``first run'', the destination is what
  \<^verbatim>\<open>sync_table_changes\<close>, called with the whole requested list, makes of it.
\<close>

theorem bootstrap_syncs_only_on_first_run:
  "fst (main_program tables_to_sync w) = Inr () \<and>
   fst (bootstrap_check w) =
     Inr (case secondary w tracking_table_name of Some tb \<Rightarrow> rows tb = [] | None \<Rightarrow> True) \<and>
   primary (snd (bootstrap_check w)) = primary w \<and>
   (\<forall>t. t \<noteq> tracking_table_name \<longrightarrow>
      secondary (snd (bootstrap_check w)) t = secondary w t) \<and>
   (fst (bootstrap_check w) = Inr False \<longrightarrow>
      secondary (snd (main_program tables_to_sync w)) = secondary w) \<and>
   (fst (bootstrap_check w) = Inr True \<longrightarrow>
      secondary (snd (main_program tables_to_sync w)) =
        secondary (snd (sync_table_changes tables_to_sync
                          (logger INFO First_run_detected (snd (bootstrap_check w))))))"
proof -
  obtain first w4 where b: "bootstrap_check w = (Inr first, w4)"
    using bootstrap_check_result [of w] by (cases "bootstrap_check w") auto
  obtain w5 where s: "sync_table_changes tables_to_sync (logger INFO First_run_detected w4) =
                        (Inr (), w5)"
    using sync_table_changes_fst [of tables_to_sync "logger INFO First_run_detected w4"]
    by (cases "sync_table_changes tables_to_sync (logger INFO First_run_detected w4)") auto
  have "first = False \<Longrightarrow> secondary w4 = secondary w"
    using bootstrap_check_result [of w] b by (auto split: option.splits)
  with b s bootstrap_check_result [of w] show ?thesis
    by (simp add: main_program_unfold bind_ex_def)
qed

theorem bootstrap_syncs_only_on_first_run_witness:
  "fst (bootstrap_check tracked_world) = Inr False \<and>
   secondary (snd (main_program [''example_table''] tracked_world)) = secondary tracked_world \<and>
   fst (bootstrap_check unprepared_world) = Inr True \<and>
   secondary (snd (main_program [''example_table''] unprepared_world)) =
     secondary (snd (sync_table_changes [''example_table'']
                       (logger INFO First_run_detected (snd (bootstrap_check unprepared_world)))))"
proof -
  have a: "fst (bootstrap_check tracked_world) = Inr False"
    using bootstrap_syncs_only_on_first_run [of "[''example_table'']" tracked_world]
    by (simp add: tracked_world_def tracking_table_name_def)
  have b: "fst (bootstrap_check unprepared_world) = Inr True"
    using bootstrap_syncs_only_on_first_run [of "[''example_table'']" unprepared_world]
    by (simp add: unprepared_world_def tracking_table_name_def)
  show ?thesis
    using a b bootstrap_syncs_only_on_first_run [of "[''example_table'']" tracked_world]
      bootstrap_syncs_only_on_first_run [of "[''example_table'']" unprepared_world]
    by simp
qed

text \<open>
  Against C3 as stated: on a later run the source table has two rows, the program is
  started for it, and the destination table still holds its one outdated row; the log
  shows that the synchronizer was not called.
\<close>

theorem no_resync_on_later_run_counterexample:
  "fst (main_program [''example_table''] tracked_world) = Inr () \<and>
   primary tracked_world ''example_table'' =
     Some \<lparr>cols = [''id'', ''name''], rows = example_rows\<rparr> \<and>
   secondary (snd (main_program [''example_table''] tracked_world)) ''example_table'' =
     Some \<lparr>cols = [''id'', ''name''], rows = [[(''id'', IntV 9), (''name'', StrV ''old'')]]\<rparr> \<and>
   log (snd (main_program [''example_table''] tracked_world)) =
     [(INFO, Not_first_run), (INFO, Setting_up ''example_table''), (INFO, Setup_complete)]"
  by (simp add: tracked_world_def mirrored_world_def example_rows_def model_defs)

subsection \<open>C6: first-run detection\<close>

text \<open>
  C6. When the \<^verbatim>\<open>Table\<close> object of the tracking table can be had, \<^verbatim>\<open>is_first_run\<close>
  does as the claim says (lemma \<open>is_first_run_when_table_loads\<close>: true for an empty table,
  false for a table with a record, true when the select raises). The object is loaded
  before the \<^verbatim>\<open>try\<close>, though: in a destination without the tracking table, seen through
  metadata that have not loaded it, the call raises \<^verbatim>\<open>NoSuchTableError\<close> instead of
  returning true.
\<close>

theorem is_first_run_raises_on_missing_table:
  "secondary unprepared_world ''sync_tracking'' = None \<and>
   is_first_run unprepared_world = (Inl (NoSuchTableError ''sync_tracking''), unprepared_world)"
  by (simp add: unprepared_world_def mirrored_world_def model_defs)

subsection \<open>C8: a failed tracking update\<close>

text \<open>
  C8. When the upsert of \<^verbatim>\<open>update_sync_tracking\<close> raises, the call does as the claim
  says (lemma \<open>tracking_failure_is_contained\<close>: it returns normally, the destination is
  as before the call, the error is logged and the loop goes on with the next table). The
  \<^verbatim>\<open>Table\<close> object of the tracking table is loaded before the \<^verbatim>\<open>try\<close>, though: in a
  destination without the tracking table, seen through metadata that have not loaded it,
  the tracking update fails with a \<^verbatim>\<open>NoSuchTableError\<close> that leaves
  \<^verbatim>\<open>update_sync_tracking\<close> and enters the \<^verbatim>\<open>except\<close> clause of \<^verbatim>\<open>sync_table_changes\<close>.
  The batch is rolled back: \<^verbatim>\<open>example_table\<close>, created for the copy, stays empty, and
  \<^verbatim>\<open>another_table\<close>, which the source has, is never reached.
\<close>

theorem tracking_load_failure_aborts_batch:
  "primary unloaded_world ''another_table'' =
     Some \<lparr>cols = [''id''], rows = [[(''id'', IntV 7)]]\<rparr> \<and>
   fst (try_batch [''example_table'', ''another_table''] unloaded_world) =
     Inl (NoSuchTableError ''sync_tracking'') \<and>
   fst (sync_table_changes [''example_table'', ''another_table''] unloaded_world) = Inr () \<and>
   secondary (snd (sync_table_changes [''example_table'', ''another_table''] unloaded_world))
     ''example_table'' = Some \<lparr>cols = [''id'', ''name''], rows = []\<rparr> \<and>
   secondary (snd (sync_table_changes [''example_table'', ''another_table''] unloaded_world))
     ''another_table'' = None \<and>
   log (snd (sync_table_changes [''example_table'', ''another_table''] unloaded_world)) =
     [(INFO, Creating_table ''example_table''), (INFO, Table_created ''example_table''),
      (ERROR, Sync_failed [''example_table'', ''another_table'']
                (NoSuchTableError ''sync_tracking''))]"
  by (simp add: unloaded_world_def untracked_world_def example_rows_def model_defs)

subsection \<open>C4: synchronizing twice\<close>

text \<open>
  C4. For every table \<open>t\<close> other than the tracking table and every state, a second
  \<^verbatim>\<open>sync_table_changes([t])\<close> run right after a first one, the source being what it was,
  leaves the destination table \<open>t\<close> exactly as the first run left it: the same rows (and
  columns) when both runs commit, and the untouched table when the first run fails, for
  then the second fails as well.
\<close>

theorem resync_idempotent:
  assumes "t \<noteq> tracking_table_name"
  shows "secondary (snd (sync_table_changes [t] (snd (sync_table_changes [t] w)))) t =
         secondary (snd (sync_table_changes [t] w)) t"
proof (cases "fst (try_batch [t] w)")
  case (Inl e)
  from failure_is_stable [OF Inl] obtain e' where
    f2: "fst (try_batch [t] (snd (sync_table_changes [t] w))) = Inl e'" and
    same: "secondary (snd (try_batch [t] (snd (sync_table_changes [t] w)))) =
             secondary (snd (sync_table_changes [t] w))"
    by blast
  from f2 same show ?thesis by (simp add: sync_table_changes_snd)
next
  case (Inr s)
  let ?w1 = "snd (sync_table_changes [t] w)"
  let ?new = "\<lambda>src tb. tb\<lparr>rows := map (stored_row (cols tb)) (rows src)\<rparr>"
  from committed_table [OF Inr _ assms] obtain src tb where
    src: "primary w t = Some src" and
    w1: "secondary ?w1 t = Some (?new src tb)"
    by auto
  have p1: "primary ?w1 = primary w"
    by (simp add: sync_table_changes_snd frame_try_batch split: sum.splits)
  have kept: "data_kept (secondary ?w1) (secondary (snd (try_batch [t] ?w1)))"
    by (simp add: frame_try_batch)
  with w1 assms have mid: "secondary (snd (try_batch [t] ?w1)) t = Some (?new src tb)"
    by (auto simp: data_kept_def dest: spec [of _ t])
  show ?thesis
  proof (cases "fst (try_batch [t] ?w1)")
    case (Inl e)
    with mid w1 show ?thesis by (simp add: sync_table_changes_snd)
  next
    case (Inr s')
    from committed_table [OF Inr _ assms] p1 src mid w1 show ?thesis by auto
  qed
qed

theorem resync_idempotent_witness:
  "''example_table'' \<noteq> tracking_table_name \<and>
   secondary
     (snd (sync_table_changes [''example_table'']
        (snd (sync_table_changes [''example_table''] mirrored_world)))) ''example_table'' =
   Some \<lparr>cols = [''id'', ''name''], rows = example_rows\<rparr>"
proof -
  have "''example_table'' \<noteq> tracking_table_name" by (simp add: tracking_table_name_def)
  from resync_idempotent [OF this, of mirrored_world] this show ?thesis
    by (simp add: example_table_synchronized)
qed

subsection \<open>C5: one tracking record per table\<close>

text \<open>
  C5, as the code has it. Take any batch that does not name the tracking table itself,
  any state, and any table name \<open>t\<close> of which the tracking table holds at most one record,
  as it does when only this program has written it (it is created empty, lemma
  \<open>new_tracking_table_is_empty\<close>, and the first conclusion here keeps it so). After
  \<^verbatim>\<open>sync_table_changes\<close> the tracking table again holds at most one record of \<open>t\<close>. When
  the call has committed no tracking update for \<open>t\<close>, the records of \<open>t\<close> are as before:
  the updates of other tables do not touch them. When it has committed one, there is
  exactly one record of \<open>t\<close> and its \<^verbatim>\<open>last_synced_at\<close> is the time read from the clock by
  the last tracking update committed for \<open>t\<close>: the reading number \<open>n\<close> of the call, \<open>n\<close>
  being the number of tracking updates the call attempted before that one. Whether the
  batch itself was then committed or rolled back makes no difference.
\<close>

theorem tracking_records_after_batch:
  assumes "tracking_table_name \<notin> set table_names"
    and "length (tracking_records t w) \<le> 1"
  shows "length (tracking_records t (snd (sync_table_changes table_names w))) \<le> 1 \<and>
         (case stamp_pos (INFO, Tracking_updated t)
                 (appended w (snd (sync_table_changes table_names w))) of
            None \<Rightarrow>
              tracking_records t (snd (sync_table_changes table_names w)) =
                tracking_records t w
          | Some n \<Rightarrow>
              (\<exists>r. tracking_records t (snd (sync_table_changes table_names w)) = [r] \<and>
                   map_of r ''last_synced_at'' =
                     Some (TimeV (utc_clock w (clock_reads w + n)))))"
proof -
  from tracked_batch [OF assms(1), of t w] obtain new where
    "log (snd (sync_table_changes table_names w)) = log w @ new" and
    "length (tracking_records t w) \<le> 1 \<longrightarrow>
       length (tracking_records t (snd (sync_table_changes table_names w))) \<le> 1 \<and>
       (case stamp_pos (INFO, Tracking_updated t) new of
          None \<Rightarrow>
            tracking_records t (snd (sync_table_changes table_names w)) = tracking_records t w
        | Some n \<Rightarrow>
            (\<exists>r. tracking_records t (snd (sync_table_changes table_names w)) = [r] \<and>
                 map_of r ''last_synced_at'' =
                   Some (TimeV (utc_clock w (clock_reads w + n)))))"
    unfolding tracked_def by blast
  with assms(2) show ?thesis by (simp add: appended_def)
qed

text \<open>
  An instance, on the list of the program: the batch fails at \<^verbatim>\<open>another_table\<close>, and the
  tracking update of \<^verbatim>\<open>example_table\<close>, the first of the call, has left the one record of
  that table, stamped with the first reading of the clock.
\<close>

theorem tracking_records_after_batch_witness:
  "tracking_table_name \<notin> set [''example_table'', ''another_table''] \<and>
   length (tracking_records ''example_table'' mirrored_world) \<le> 1 \<and>
   stamp_pos (INFO, Tracking_updated ''example_table'')
     (appended mirrored_world
        (snd (sync_table_changes [''example_table'', ''another_table''] mirrored_world))) =
     Some 0 \<and>
   (\<exists>r. tracking_records ''example_table''
           (snd (sync_table_changes [''example_table'', ''another_table''] mirrored_world)) =
           [r] \<and>
        map_of r ''last_synced_at'' = Some (TimeV 1000))"
proof -
  let ?ts = "[''example_table'', ''another_table'']"
  have a: "tracking_table_name \<notin> set ?ts" by (simp add: tracking_table_name_def)
  have b: "length (tracking_records ''example_table'' mirrored_world) \<le> 1"
    by (simp add: tracking_records_def mirrored_world_def tracking_table_name_def)
  have c: "stamp_pos (INFO, Tracking_updated ''example_table'')
             (appended mirrored_world (snd (sync_table_changes ?ts mirrored_world))) = Some 0"
    by (simp add: appended_def tracking_attempt_def mirrored_world_def example_rows_def
        model_defs)
  have d: "utc_clock mirrored_world (clock_reads mirrored_world + 0) = 1000"
    by (simp add: mirrored_world_def)
  from tracking_records_after_batch [OF a b] a b c d show ?thesis by simp
qed

text \<open>
  Against C5 as stated: \<^verbatim>\<open>example_table\<close> has been synchronized successfully once, at
  time 1000. Then the batch of \<^verbatim>\<open>example_table\<close> and the missing \<^verbatim>\<open>another_table\<close> fails
  and is rolled back, and the record of \<^verbatim>\<open>example_table\<close> carries 1001, the time of the
  failed batch, not that of the most recent successful synchronization.
\<close>

theorem failed_batch_restamps_counterexample:
  "last (log synced_once_world) = (INFO, Synchronized [''example_table'']) \<and>
   tracking_records ''example_table'' synced_once_world =
     [[(''table_name'', StrV ''example_table''), (''last_synced_at'', TimeV 1000)]] \<and>
   last (log (snd (sync_table_changes [''example_table'', ''another_table'']
                     synced_once_world))) =
     (ERROR, Sync_failed [''example_table'', ''another_table'']
               (NoSuchTableError ''another_table'')) \<and>
   tracking_records ''example_table''
     (snd (sync_table_changes [''example_table'', ''another_table''] synced_once_world)) =
     [[(''table_name'', StrV ''example_table''), (''last_synced_at'', TimeV 1001)]]"
  by (simp add: synced_once_world_def tracking_records_def mirrored_world_def example_rows_def
      model_defs)

end
